theory Spec2Isabelle
  imports Main "HOL-Library.AList"
begin

section \<open>The write path of the normalized cache (writeToStore.ts)\<close>

text \<open>
  A shallow embedding of \<^verbatim>\<open>src/cache/inmemory/writeToStore.ts\<close>: the class
  \<^verbatim>\<open>StoreWriter\<close> with \<^verbatim>\<open>writeQueryToStore\<close>, \<^verbatim>\<open>writeSelectionSetToStore\<close>,
  \<^verbatim>\<open>processSelectionSet\<close>, \<^verbatim>\<open>processFieldValue\<close>, and the function
  \<^verbatim>\<open>walkWithMergeOverrides\<close>.

  Conventions of the embedding:
  \<^item> a JavaScript value is a \<open>jsval\<close>; \<^verbatim>\<open>undefined\<close> is \<open>None\<close> of \<open>jsval option\<close>;
  \<^item> the mutable parts of the \<^verbatim>\<open>WriteContext\<close> (the store and the \<^verbatim>\<open>written\<close> table) are
    threaded through every function as a \<open>wstate\<close>; the read-only parts (variables and
    fragment map) are the record \<open>WriteContext\<close>;
  \<^item> the calls with an effect outside the writer (\<^verbatim>\<open>store.retain\<close>, \<^verbatim>\<open>store.merge\<close>,
    \<^verbatim>\<open>invariant.warn\<close>) are also appended, in the order they happen, to the \<open>trace\<close> of
    the state;
  \<^item> a thrown exception is \<open>Inl\<close> of an \<open>error\<close>;
  \<^item> the recursion follows named fragments through the fragment map, so it is not
    structural in the document: the functions take a fuel argument that bounds the depth
    of the calls, and return \<open>Inl OutOfFuel\<close> when it is used up.
\<close>

subsection \<open>Values\<close>

text \<open>
  The values of a result object and of the store. Numbers are integers: nothing below
  computes with them. \<open>Reference\<close> is what \<^verbatim>\<open>makeReference\<close> returns.
\<close>

datatype jsval =
    JNull
  | JBool bool
  | JNum int
  | JStr string
  | JArr "jsval list"
  | JObj "(string \<times> jsval) list"
  | Reference string

type_synonym StoreObject = "(string \<times> jsval) list"

type_synonym variables = "string \<rightharpoonup> jsval"

text \<open>
  Why a call did not return: the fuel of the model ran out, an \<^verbatim>\<open>invariant\<close> failed, the
  JavaScript engine raised a \<^verbatim>\<open>TypeError\<close>, or the call left the part of JavaScript
  that \<open>jsval\<close> represents (an array with holes, a named property on an array).
\<close>

datatype error =
    OutOfFuel
  | InvariantViolation string
  | TypeError string
  | Unsupported string

text \<open>JavaScript truthiness, for \<^verbatim>\<open>||\<close>, \<^verbatim>\<open>&&\<close> and \<^verbatim>\<open>if (value)\<close>.\<close>

fun truthy :: "jsval \<Rightarrow> bool" where
  "truthy JNull = False"
| "truthy (JBool b) = b"
| "truthy (JNum n) = (n \<noteq> 0)"
| "truthy (JStr s) = (s \<noteq> [])"
| "truthy (JArr xs) = True"
| "truthy (JObj kvs) = True"
| "truthy (Reference r) = True"

text \<open>\<^verbatim>\<open>a || b\<close> on possibly undefined values.\<close>

definition js_or :: "jsval option \<Rightarrow> jsval option \<Rightarrow> jsval option" where
  "js_or a b = (case a of Some v \<Rightarrow> (if truthy v then Some v else b) | None \<Rightarrow> b)"

text \<open>\<^verbatim>\<open>result[key]\<close> for a result object: a property that is not there reads as undefined.
  Only the own properties of plain objects are modelled.\<close>

definition getField :: "jsval \<Rightarrow> string \<Rightarrow> jsval option" where
  "getField v k = (case v of JObj kvs \<Rightarrow> map_of kvs k | _ \<Rightarrow> None)"

subsection \<open>The query document\<close>

datatype ValueNode = Literal jsval | Variable string

datatype DirectiveNode =
  DirectiveNode (d_name: string) (d_arguments: "(string \<times> ValueNode) list")

text \<open>
  The nodes of the GraphQL syntax tree that the writer reads. A \<open>SelectionSetNode\<close> carries
  its \<open>loc\<close>: \<^verbatim>\<open>written[dataId].indexOf(selectionSet)\<close> compares node objects by identity,
  and two nodes of one document differ in their location.
\<close>

datatype FieldNode =
    FieldNode (f_alias: "string option") (f_name: string)
      (f_arguments: "(string \<times> ValueNode) list")
      (f_directives: "DirectiveNode list")
      (f_selectionSet: "SelectionSetNode option")
and SelectionNode =
    FieldSel FieldNode
  | FragmentSpreadSel (fs_name: string) (fs_directives: "DirectiveNode list")
  | InlineFragmentSel (if_typeCondition: "string option")
      (if_directives: "DirectiveNode list") (if_selectionSet: SelectionSetNode)
and SelectionSetNode =
    SelectionSetNode (loc: nat) (selections: "SelectionNode list")

text \<open>What \<^verbatim>\<open>getFragmentFromSelection\<close> returns: an inline fragment or a fragment
  definition, of which the writer and the policies read these two fields.\<close>

record Fragment =
  fr_typeCondition :: "string option"
  fr_selectionSet :: SelectionSetNode

type_synonym FragmentMap = "string \<rightharpoonup> Fragment"

datatype DefinitionNode =
    OperationDefinition (op_variableDefinitions: "(string \<times> jsval option) list")
      (op_selectionSet: SelectionSetNode)
  | FragmentDefinition (fd_name: string) (fd_typeCondition: string)
      (fd_selectionSet: SelectionSetNode)

type_synonym DocumentNode = "DefinitionNode list"

subsection \<open>Merge overrides\<close>

text \<open>
  \<^verbatim>\<open>StoreValueMergeFunction\<close>: called as \<^verbatim>\<open>merge(existingValue, incomingValue)\<close>, where
  either argument may be undefined. A merge function is a pure function of its arguments
  (the source freezes \<^verbatim>\<open>existingValue\<close> before the call outside production).
\<close>

type_synonym StoreValueMergeFunction = "jsval option \<Rightarrow> jsval option \<Rightarrow> jsval"

text \<open>A position in a store object: a field of an object or an index of an array.\<close>

datatype key = Name string | Index nat

text \<open>
  \<^verbatim>\<open>type MergeOverrides = Record<string | number, { merge?, child? }>\<close>, with the keys in
  the order of \<^verbatim>\<open>Object.keys\<close>.
\<close>

datatype MergeOverrides =
    MergeOverrides (entries: "(key \<times> OverrideEntry) list")
and OverrideEntry =
    OverrideEntry (e_merge: "StoreValueMergeFunction option")
      (e_child: "MergeOverrides option")

subsection \<open>The collaborators of the writer\<close>

text \<open>
  The \<^verbatim>\<open>Policies\<close> object is a strategy supplied by the configuration: its members are
  parameters of the model. \<open>typename\<close> arguments are \<open>jsval option\<close>, since the writer
  passes on whatever the result object holds under \<^verbatim>\<open>__typename\<close>.
\<close>

record Policies =
  rootTypenamesById :: "string \<rightharpoonup> string"
  usingPossibleTypes :: bool
  identify :: "jsval \<Rightarrow> SelectionSetNode \<Rightarrow> FragmentMap \<Rightarrow> string option"
  getStoreFieldName :: "jsval option \<Rightarrow> FieldNode \<Rightarrow> variables \<Rightarrow> string"
  getFieldMergeFunction ::
    "jsval option \<Rightarrow> FieldNode \<Rightarrow> variables \<Rightarrow> StoreValueMergeFunction option"
  fragmentMatches :: "Fragment \<Rightarrow> jsval option \<Rightarrow> bool"

text \<open>
  The writer itself: its policies, the two helpers of \<^verbatim>\<open>utilities/graphql\<close> that are taken as
  parameters, since their code is not part of these sources (\<^verbatim>\<open>shouldInclude\<close> may throw
  on an unbound variable, \<^verbatim>\<open>getTypenameFromResult\<close> on an unknown fragment), and the build
  mode (\<^verbatim>\<open>process.env.NODE_ENV === 'production'\<close>). The members of the policies are taken
  to return; a member that throws is not modelled.
\<close>

record StoreWriter =
  policies :: Policies
  shouldInclude :: "SelectionNode \<Rightarrow> variables \<Rightarrow> error + bool"
  getTypenameFromResult ::
    "jsval \<Rightarrow> SelectionSetNode \<Rightarrow> FragmentMap \<Rightarrow> error + jsval option"
  production :: bool

record WriteContext =
  variables :: variables
  fragmentMap :: FragmentMap

subsection \<open>Helpers imported by the writer\<close>

text \<open>Modelled from the spec: \<^verbatim>\<open>resultKeyNameFromField\<close> (storeUtils): the result key of a
  field is its alias if present, else its name.\<close>

definition resultKeyNameFromField :: "FieldNode \<Rightarrow> string" where
  "resultKeyNameFromField field =
     (case f_alias field of Some a \<Rightarrow> a | None \<Rightarrow> f_name field)"

text \<open>Modelled from the spec: \<^verbatim>\<open>makeReference\<close> (storeUtils): the Reference variant of a
  store value, holding the entity key.\<close>

definition makeReference :: "string \<Rightarrow> jsval" where
  "makeReference dataId = Reference dataId"

text \<open>Modelled from the spec: \<^verbatim>\<open>cloneDeep\<close> (utilities/common): a deep copy. Values of
  \<open>jsval\<close> have no identity, so the copy is the value.\<close>

definition cloneDeep :: "jsval \<Rightarrow> jsval" where
  "cloneDeep v = v"

text \<open>Modelled from the spec: \<^verbatim>\<open>getFragmentFromSelection\<close> (utilities/graphql/fragments):
  an inline fragment is its own fragment, a fragment spread is looked up by name in the
  fragment map, and a name that is not there is a malformed document.\<close>

definition getFragmentFromSelection :: "SelectionNode \<Rightarrow> FragmentMap \<Rightarrow> error + Fragment" where
  "getFragmentFromSelection selection fm =
     (case selection of
        InlineFragmentSel tc ds ss \<Rightarrow> Inr \<lparr>fr_typeCondition = tc, fr_selectionSet = ss\<rparr>
      | FragmentSpreadSel n ds \<Rightarrow>
          (case fm n of
             Some fragment \<Rightarrow> Inr fragment
           | None \<Rightarrow> Inl (InvariantViolation (''No fragment named '' @ n)))
      | FieldSel f \<Rightarrow> Inl (TypeError ''not a fragment''))"

text \<open>
  Modelled from the spec: \<^verbatim>\<open>DeepMerger.merge\<close> (utilities/common/mergeDeep), the
  structural accumulate of \<^verbatim>\<open>context.merge\<close>: objects merge key by key, arrays merge
  positionally, and anything else is replaced by the new value.
\<close>

fun mergeDeep :: "jsval \<Rightarrow> jsval \<Rightarrow> jsval"
and mergeFields :: "StoreObject \<Rightarrow> StoreObject \<Rightarrow> StoreObject"
and mergeItems :: "jsval list \<Rightarrow> jsval list \<Rightarrow> jsval list" where
  "mergeDeep target (JObj src) =
     (case target of JObj tgt \<Rightarrow> JObj (mergeFields tgt src) | _ \<Rightarrow> JObj src)"
| "mergeDeep target (JArr src) =
     (case target of JArr tgt \<Rightarrow> JArr (mergeItems tgt src) | _ \<Rightarrow> JArr src)"
| "mergeDeep target JNull = JNull"
| "mergeDeep target (JBool b) = JBool b"
| "mergeDeep target (JNum n) = JNum n"
| "mergeDeep target (JStr s) = JStr s"
| "mergeDeep target (Reference r) = Reference r"
| "mergeFields tgt [] = tgt"
| "mergeFields tgt (kv # src) =
     mergeFields
       (case map_of tgt (fst kv) of
          None \<Rightarrow> tgt @ [(fst kv, snd kv)]
        | Some t \<Rightarrow> AList.update (fst kv) (mergeDeep t (snd kv)) tgt)
       src"
| "mergeItems tgt [] = tgt"
| "mergeItems tgt (s # src) =
     (case tgt of
        [] \<Rightarrow> s # src
      | t # tgt' \<Rightarrow> mergeDeep t s # mergeItems tgt' src)"


text \<open>
  \<^verbatim>\<open>context.merge\<close> on merge overrides. An entry built by the writer for a field is the
  object literal \<^verbatim>\<open>{ merge, child }\<close>, which has both keys even when a value is undefined,
  so the incoming \<^verbatim>\<open>merge\<close> replaces the one there, and the incoming \<^verbatim>\<open>child\<close> is merged
  into the one there when both are objects and replaces it otherwise. An entry built for
  a list index is \<^verbatim>\<open>{ child }\<close>; such entries have no merge function on either side.
\<close>

fun mergeOverridesDeep :: "MergeOverrides \<Rightarrow> MergeOverrides \<Rightarrow> MergeOverrides"
and mergeEntries ::
  "(key \<times> OverrideEntry) list \<Rightarrow> (key \<times> OverrideEntry) list \<Rightarrow> (key \<times> OverrideEntry) list"
and mergeEntry :: "OverrideEntry \<Rightarrow> OverrideEntry \<Rightarrow> OverrideEntry" where
  "mergeOverridesDeep target (MergeOverrides src) =
     MergeOverrides (mergeEntries (entries target) src)"
| "mergeEntries tgt [] = tgt"
| "mergeEntries tgt (ke # src) =
     mergeEntries
       (case map_of tgt (fst ke) of
          None \<Rightarrow> tgt @ [(fst ke, snd ke)]
        | Some t \<Rightarrow> AList.update (fst ke) (mergeEntry t (snd ke)) tgt)
       src"
| "mergeEntry target (OverrideEntry m c) =
     OverrideEntry m
       (case c of
          None \<Rightarrow> None
        | Some sc \<Rightarrow>
            (case e_child target of
               None \<Rightarrow> Some sc
             | Some tc \<Rightarrow> Some (mergeOverridesDeep tc sc)))"

text \<open>\<^verbatim>\<open>mergeOverrides[storeFieldName] =
  context.merge(mergeOverrides[storeFieldName], { merge, child })\<close>.\<close>

definition setOverride :: "MergeOverrides \<Rightarrow> key \<Rightarrow> OverrideEntry \<Rightarrow> MergeOverrides" where
  "setOverride mo k e =
     MergeOverrides
       (AList.update k
          (case map_of (entries mo) k of None \<Rightarrow> e | Some t \<Rightarrow> mergeEntry t e)
          (entries mo))"

text \<open>
  The positions of an overrides tree that carry a merge function, each as the path of
  keys that leads to it from the root of the tree. These are the positions whose value
  the walk over the overrides settles with the merge function.
\<close>

fun mergePositions :: "MergeOverrides \<Rightarrow> key list list"
and mergePositionsIn :: "(key \<times> OverrideEntry) list \<Rightarrow> key list list"
and mergePositionsOf :: "OverrideEntry \<Rightarrow> key list list" where
  "mergePositions (MergeOverrides es) = mergePositionsIn es"
| "mergePositionsIn [] = []"
| "mergePositionsIn (ke # es) =
     map ((#) (fst ke)) (mergePositionsOf (snd ke)) @ mergePositionsIn es"
| "mergePositionsOf (OverrideEntry m c) =
     (case m of None \<Rightarrow> [] | Some f \<Rightarrow> [[]]) @
     (case c of None \<Rightarrow> [] | Some ov \<Rightarrow> mergePositions ov)"

text \<open>The same for \<^verbatim>\<open>processed.mergeOverrides\<close>, which may be undefined.\<close>

definition resolvedPositions :: "MergeOverrides option \<Rightarrow> key list list" where
  "resolvedPositions mo = (case mo of None \<Rightarrow> [] | Some ov \<Rightarrow> mergePositions ov)"

subsection \<open>The entity store\<close>

text \<open>
  Modelled from the spec: the \<^verbatim>\<open>NormalizedCache\<close> (entityStore, not part of these
  sources): a mapping from entity key to field map, with the retained root keys.
\<close>

record NormalizedCache =
  data :: "string \<rightharpoonup> StoreObject"
  rootIds :: "string \<Rightarrow> nat"

definition defaultNormalizedCacheFactory :: NormalizedCache where
  "defaultNormalizedCacheFactory = \<lparr>data = Map.empty, rootIds = (\<lambda>_. 0)\<rparr>"

definition store_get :: "NormalizedCache \<Rightarrow> string \<Rightarrow> StoreObject option" where
  "store_get s dataId = data s dataId"

definition store_getFieldValue :: "NormalizedCache \<Rightarrow> string \<Rightarrow> string \<Rightarrow> jsval option" where
  "store_getFieldValue s dataId fieldName =
     (case data s dataId of None \<Rightarrow> None | Some obj \<Rightarrow> map_of obj fieldName)"

text \<open>
  Modelled from the spec: the merge-on-write of the store. New fields overwrite scalars,
  and nested maps and lists merge structurally by position, unless the position was
  already resolved by the override pass: the value of such a position is stored as it
  is. \<open>resolved\<close> lists the resolved positions, as paths from the value that is merged;
  \<open>below name resolved\<close> are the ones under the key \<open>name\<close>, as paths from there.
\<close>

definition below :: "key \<Rightarrow> key list list \<Rightarrow> key list list" where
  "below name resolved = map tl (filter (\<lambda>p. p \<noteq> [] \<and> hd p = name) resolved)"

fun mergeStored :: "key list list \<Rightarrow> jsval \<Rightarrow> jsval \<Rightarrow> jsval"
and mergeStoredFields :: "key list list \<Rightarrow> StoreObject \<Rightarrow> StoreObject \<Rightarrow> StoreObject"
and mergeStoredItems :: "key list list \<Rightarrow> nat \<Rightarrow> jsval list \<Rightarrow> jsval list \<Rightarrow> jsval list"
where
  "mergeStored resolved existing (JObj src) =
     (if [] \<in> set resolved then JObj src
      else case existing of
             JObj tgt \<Rightarrow> JObj (mergeStoredFields resolved tgt src)
           | _ \<Rightarrow> JObj src)"
| "mergeStored resolved existing (JArr src) =
     (if [] \<in> set resolved then JArr src
      else case existing of
             JArr tgt \<Rightarrow> JArr (mergeStoredItems resolved 0 tgt src)
           | _ \<Rightarrow> JArr src)"
| "mergeStored resolved existing JNull = JNull"
| "mergeStored resolved existing (JBool b) = JBool b"
| "mergeStored resolved existing (JNum n) = JNum n"
| "mergeStored resolved existing (JStr s) = JStr s"
| "mergeStored resolved existing (Reference r) = Reference r"
| "mergeStoredFields resolved tgt [] = tgt"
| "mergeStoredFields resolved tgt (kv # src) =
     mergeStoredFields resolved
       (case map_of tgt (fst kv) of
          None \<Rightarrow> tgt @ [(fst kv, snd kv)]
        | Some t \<Rightarrow>
            AList.update (fst kv)
              (mergeStored (below (Name (fst kv)) resolved) t (snd kv)) tgt)
       src"
| "mergeStoredItems resolved i tgt [] = tgt"
| "mergeStoredItems resolved i tgt (s # src) =
     (case tgt of
        [] \<Rightarrow> s # src
      | t # tgt' \<Rightarrow>
          mergeStored (below (Index i) resolved) t s #
          mergeStoredItems resolved (Suc i) tgt' src)"

text \<open>
  Modelled from the spec: \<^verbatim>\<open>store.merge(dataId, incoming)\<close>. The source passes the entity
  key and the field map; the positions that the override pass has resolved are an
  argument of the model only, because the spec words the merge of the store by them.
\<close>

definition store_merge ::
  "NormalizedCache \<Rightarrow> string \<Rightarrow> StoreObject \<Rightarrow> key list list \<Rightarrow> NormalizedCache" where
  "store_merge s dataId incoming resolved =
     s\<lparr>data := (data s)(dataId \<mapsto>
          mergeStoredFields resolved
            (case data s dataId of None \<Rightarrow> [] | Some existing \<Rightarrow> existing) incoming)\<rparr>"

definition store_retain :: "NormalizedCache \<Rightarrow> string \<Rightarrow> NormalizedCache" where
  "store_retain s rootId = s\<lparr>rootIds := (rootIds s)(rootId := Suc (rootIds s rootId))\<rparr>"

subsection \<open>The state of one write\<close>

datatype event =
    Retain string
  | Merge string StoreObject
  | Warn string jsval

text \<open>
  \<open>store\<close> and \<open>written\<close> are the two mutable members of the \<^verbatim>\<open>WriteContext\<close>. \<open>trace\<close>
  lists the calls of \<^verbatim>\<open>store.retain\<close>, \<^verbatim>\<open>store.merge\<close> and \<^verbatim>\<open>invariant.warn\<close> made so
  far, oldest first; for a warning it keeps the result key and the result object that
  the message is printed from.
\<close>

record wstate =
  store :: NormalizedCache
  written :: "string \<rightharpoonup> SelectionSetNode list"
  trace :: "event list"

subsection \<open>walkWithMergeOverrides\<close>

text \<open>\<^verbatim>\<open>object[name]\<close>: own fields of objects and elements of arrays; anything else reads
  as undefined.\<close>

definition getProp :: "jsval \<Rightarrow> key \<Rightarrow> jsval option" where
  "getProp v name =
     (case v of
        JObj kvs \<Rightarrow> (case name of Name s \<Rightarrow> map_of kvs s | Index i \<Rightarrow> None)
      | JArr xs \<Rightarrow>
          (case name of Index i \<Rightarrow> (if i < length xs then Some (xs ! i) else None)
           | Name s \<Rightarrow> None)
      | _ \<Rightarrow> None)"

text \<open>\<^verbatim>\<open>object && object[name]\<close>: a falsy object is itself the value.\<close>

definition andProp :: "jsval option \<Rightarrow> key \<Rightarrow> jsval option" where
  "andProp obj name =
     (case obj of
        None \<Rightarrow> None
      | Some v \<Rightarrow> (if truthy v then getProp v name else Some v))"

text \<open>
  \<^verbatim>\<open>object[name] = v\<close>, returning the object as it is afterwards. Assigning to a property of
  undefined, null or (in strict mode) a primitive throws.
\<close>

definition setProp :: "jsval option \<Rightarrow> key \<Rightarrow> jsval \<Rightarrow> error + jsval option" where
  "setProp obj name v =
     (case obj of
        None \<Rightarrow> Inl (TypeError ''Cannot set properties of undefined'')
      | Some (JObj kvs) \<Rightarrow>
          (case name of
             Name s \<Rightarrow> Inr (Some (JObj (AList.update s v kvs)))
           | Index i \<Rightarrow> Inl (Unsupported ''index key on an object''))
      | Some (JArr xs) \<Rightarrow>
          (case name of
             Index i \<Rightarrow>
               (if i < length xs then Inr (Some (JArr (xs[i := v])))
                else if i = length xs then Inr (Some (JArr (xs @ [v])))
                else Inl (Unsupported ''array with holes''))
           | Name s \<Rightarrow> Inl (Unsupported ''named property on an array''))
      | Some (Reference r) \<Rightarrow> Inl (Unsupported ''property on a reference'')
      | Some _ \<Rightarrow> Inl (TypeError ''Cannot create property''))"

text \<open>
  The recursive call of the walker changes \<^verbatim>\<open>incomingValue\<close> in place, and
  \<^verbatim>\<open>incomingValue\<close> is the object held at \<^verbatim>\<open>incomingObject[name]\<close>: \<open>replaceProp\<close> puts
  the changed value back where it was read from.
\<close>

definition replaceProp :: "jsval option \<Rightarrow> key \<Rightarrow> jsval option \<Rightarrow> jsval option" where
  "replaceProp obj name v =
     (case v of
        None \<Rightarrow> obj
      | Some x \<Rightarrow>
          (case obj of
             Some (JObj kvs) \<Rightarrow>
               (case name of
                  Name s \<Rightarrow> (if map_of kvs s = None then obj
                             else Some (JObj (AList.update s x kvs)))
                | Index i \<Rightarrow> obj)
           | Some (JArr xs) \<Rightarrow>
               (case name of
                  Index i \<Rightarrow> (if i < length xs then Some (JArr (xs[i := x])) else obj)
                | Name s \<Rightarrow> obj)
           | _ \<Rightarrow> obj))"

fun walkWithMergeOverrides ::
  "jsval option \<Rightarrow> jsval option \<Rightarrow> MergeOverrides \<Rightarrow> error + jsval option"
and walkEntries ::
  "jsval option \<Rightarrow> jsval option \<Rightarrow> (key \<times> OverrideEntry) list \<Rightarrow> error + jsval option"
where
  "walkWithMergeOverrides existingObject incomingObject (MergeOverrides es) =
     walkEntries existingObject incomingObject es"
| "walkEntries existingObject incomingObject [] = Inr incomingObject"
| "walkEntries existingObject incomingObject ((name, OverrideEntry merge child) # es) =
     (let existingValue = andProp existingObject name;
          incomingValue = andProp incomingObject name
      in case (case child of
                 None \<Rightarrow> Inr incomingValue
               | Some c \<Rightarrow> walkWithMergeOverrides existingValue incomingValue c) of
           Inl e \<Rightarrow> Inl e
         | Inr incomingValue' \<Rightarrow>
             (case (case merge of
                      None \<Rightarrow> Inr (replaceProp incomingObject name incomingValue')
                    | Some f \<Rightarrow>
                        setProp incomingObject name (f existingValue incomingValue')) of
                Inl e \<Rightarrow> Inl e
              | Inr incomingObject' \<Rightarrow> walkEntries existingObject incomingObject' es))"








subsection \<open>The StoreWriter\<close>

text \<open>\<^verbatim>\<open>written[dataId] || (written[dataId] = [])\<close>, as a value.\<close>

definition writtenSets :: "wstate \<Rightarrow> string \<Rightarrow> SelectionSetNode list" where
  "writtenSets st dataId = (case written st dataId of None \<Rightarrow> [] | Some sets \<Rightarrow> sets)"

text \<open>
  Lines 138 to 145: the type name that \<^verbatim>\<open>writeSelectionSetToStore\<close> hands to
  \<^verbatim>\<open>processSelectionSet\<close>, given what \<^verbatim>\<open>getTypenameFromResult\<close> returned.
\<close>

definition resolveTypename ::
  "StoreWriter \<Rightarrow> NormalizedCache \<Rightarrow> string \<Rightarrow> jsval option \<Rightarrow> jsval option" where
  "resolveTypename w s dataId fromResult =
     js_or (js_or fromResult (store_getFieldValue s dataId ''__typename''))
       (map_option JStr (rootTypenamesById (policies w) dataId))"

text \<open>
  The test of lines 230 to 237: possible types are in use and the field has no
  \<^verbatim>\<open>@defer\<close> or \<^verbatim>\<open>@client\<close> directive.
\<close>

definition warnsMissing :: "StoreWriter \<Rightarrow> FieldNode \<Rightarrow> bool" where
  "warnsMissing w field =
     (usingPossibleTypes (policies w) \<and>
      \<not> list_ex (\<lambda>d. d_name d = ''defer'' \<or> d_name d = ''client'') (f_directives field))"

text \<open>Lines 160 to 167: the walk over the merge overrides, if there are any, and
  \<^verbatim>\<open>store.merge(dataId, processed.result)\<close>. The model of the store is told the positions
  that the walk has resolved, those of \<^verbatim>\<open>processed.mergeOverrides\<close> that carry a merge
  function.\<close>

definition commit ::
  "string \<Rightarrow> StoreObject \<Rightarrow> MergeOverrides option \<Rightarrow> wstate \<Rightarrow> error + wstate" where
  "commit dataId fieldMap mo st =
     (case (case mo of
              None \<Rightarrow> Inr (Some (JObj fieldMap))
            | Some ov \<Rightarrow>
                walkWithMergeOverrides (map_option JObj (store_get (store st) dataId))
                  (Some (JObj fieldMap)) ov) of
        Inl e \<Rightarrow> Inl e
      | Inr (Some (JObj fieldMap')) \<Rightarrow>
          Inr (st\<lparr>store := store_merge (store st) dataId fieldMap' (resolvedPositions mo),
                  trace := trace st @ [Merge dataId fieldMap']\<rparr>)
      | Inr _ \<Rightarrow> Inl (TypeError ''processed.result is not an object''))"


text \<open>Modelled from the spec: \<^verbatim>\<open>isField\<close> (storeUtils): a selection is a field occurrence
  or a fragment.\<close>

definition isField :: "SelectionNode \<Rightarrow> FieldNode option" where
  "isField selection = (case selection of FieldSel field \<Rightarrow> Some field | _ \<Rightarrow> None)"

text \<open>\<^verbatim>\<open>Array.isArray(value)\<close>, with the elements.\<close>

definition arrayItems :: "jsval \<Rightarrow> jsval list option" where
  "arrayItems value = (case value of JArr items \<Rightarrow> Some items | _ \<Rightarrow> None)"

text \<open>Lines 188 to 191: \<^verbatim>\<open>mergedFields\<close> before the loop.\<close>

definition initialFields :: "jsval option \<Rightarrow> StoreObject" where
  "initialFields typename =
     (case typename of Some (JStr t) \<Rightarrow> [(''__typename'', JStr t)] | _ \<Rightarrow> [])"

text \<open>Lines 217 to 223: the entry for a custom merge function or nested overrides.\<close>

definition recordOverride ::
  "StoreValueMergeFunction option \<Rightarrow> MergeOverrides option \<Rightarrow> string \<Rightarrow> MergeOverrides option
   \<Rightarrow> MergeOverrides option" where
  "recordOverride merge pmo storeFieldName mergeOverrides =
     (if merge \<noteq> None \<or> pmo \<noteq> None
      then Some (setOverride
             (case mergeOverrides of None \<Rightarrow> MergeOverrides [] | Some mo \<Rightarrow> mo)
             (Name storeFieldName) (OverrideEntry merge pmo))
      else mergeOverrides)"

text \<open>Lines 229 to 249: the warning for a field missing from the result.\<close>

definition warnMissing :: "StoreWriter \<Rightarrow> FieldNode \<Rightarrow> jsval \<Rightarrow> wstate \<Rightarrow> wstate" where
  "warnMissing w field result st =
     (if warnsMissing w field
      then st\<lparr>trace := trace st @ [Warn (resultKeyNameFromField field) result]\<rparr>
      else st)"

text \<open>Line 297: the stored value of a leaf.\<close>

definition leafValue :: "StoreWriter \<Rightarrow> jsval \<Rightarrow> jsval" where
  "leafValue w value = (if production w then value else cloneDeep value)"

text \<open>Lines 306 to 309: \<^verbatim>\<open>overrides[i] = { child: mergeOverrides }\<close>. The loop of the model
  builds the entries from the last item to the first, so a lower index is put in front.\<close>

definition itemOverrides ::
  "nat \<Rightarrow> MergeOverrides option \<Rightarrow> MergeOverrides option \<Rightarrow> MergeOverrides option" where
  "itemOverrides i mo overrides =
     (case mo of
        None \<Rightarrow> overrides
      | Some m \<Rightarrow>
          Some (MergeOverrides
                  ((Index i, OverrideEntry None (Some m)) #
                   (case overrides of None \<Rightarrow> [] | Some ov \<Rightarrow> entries ov))))"

text \<open>
  The four methods, with the two loops (\<^verbatim>\<open>selections.forEach\<close> as \<open>processSelections\<close>,
  its callback as \<open>processSelection\<close>, \<^verbatim>\<open>value.map\<close> as \<open>processItems\<close>). The callback takes
  and returns the variables that it assigns in the source, \<^verbatim>\<open>mergedFields\<close> and
  \<^verbatim>\<open>mergeOverrides\<close>, and the state.
  A result \<open>(r, mo, st)\<close> is \<^verbatim>\<open>{ result: r, mergeOverrides: mo }\<close> and the state after
  the call.

  In the fragment branch the callee extends the \<^verbatim>\<open>mergeOverrides\<close> object it is given in
  place, so \<^verbatim>\<open>processed.mergeOverrides\<close> is that same object whenever one was passed, and
  \<^verbatim>\<open>context.merge\<close> of an object with itself returns it: the overrides after the branch
  are \<^verbatim>\<open>processed.mergeOverrides\<close> when that is defined.

  Fuel is used up by a call of a method, not by a step of a loop.
\<close>

function writeSelectionSetToStore ::
  "nat \<Rightarrow> StoreWriter \<Rightarrow> WriteContext \<Rightarrow> string \<Rightarrow> jsval \<Rightarrow> SelectionSetNode \<Rightarrow> wstate
   \<Rightarrow> error + wstate"
and processSelectionSet ::
  "nat \<Rightarrow> StoreWriter \<Rightarrow> WriteContext \<Rightarrow> jsval \<Rightarrow> SelectionSetNode \<Rightarrow> MergeOverrides option
   \<Rightarrow> jsval option \<Rightarrow> wstate \<Rightarrow> error + (StoreObject \<times> MergeOverrides option \<times> wstate)"
and processSelections ::
  "nat \<Rightarrow> StoreWriter \<Rightarrow> WriteContext \<Rightarrow> jsval \<Rightarrow> jsval option \<Rightarrow> SelectionNode list
   \<Rightarrow> StoreObject \<Rightarrow> MergeOverrides option \<Rightarrow> wstate
   \<Rightarrow> error + (StoreObject \<times> MergeOverrides option \<times> wstate)"
and processSelection ::
  "nat \<Rightarrow> StoreWriter \<Rightarrow> WriteContext \<Rightarrow> jsval \<Rightarrow> jsval option \<Rightarrow> SelectionNode
   \<Rightarrow> StoreObject \<Rightarrow> MergeOverrides option \<Rightarrow> wstate
   \<Rightarrow> error + (StoreObject \<times> MergeOverrides option \<times> wstate)"
and processFieldValue ::
  "nat \<Rightarrow> StoreWriter \<Rightarrow> WriteContext \<Rightarrow> jsval \<Rightarrow> FieldNode \<Rightarrow> wstate
   \<Rightarrow> error + (jsval \<times> MergeOverrides option \<times> wstate)"
and processItems ::
  "nat \<Rightarrow> StoreWriter \<Rightarrow> WriteContext \<Rightarrow> jsval list \<Rightarrow> nat \<Rightarrow> FieldNode \<Rightarrow> wstate
   \<Rightarrow> error + (jsval list \<times> MergeOverrides option \<times> wstate)"
where
  "writeSelectionSetToStore 0 w ctx dataId result selectionSet st = Inl OutOfFuel"
| "writeSelectionSetToStore (Suc n) w ctx dataId result selectionSet st =
     (if selectionSet \<in> set (writtenSets st dataId) then Inr st
      else
        case getTypenameFromResult w result selectionSet (fragmentMap ctx) of
          Inl e \<Rightarrow> Inl e
        | Inr fromResult \<Rightarrow>
            (case processSelectionSet n w ctx result selectionSet None
                    (resolveTypename w (store st) dataId fromResult)
                    (st\<lparr>written := (written st)(dataId \<mapsto>
                           writtenSets st dataId @ [selectionSet])\<rparr>) of
               Inl e \<Rightarrow> Inl e
             | Inr processed \<Rightarrow>
                 commit dataId (fst processed) (fst (snd processed)) (snd (snd processed))))"
| "processSelectionSet 0 w ctx result selectionSet mergeOverrides typename st = Inl OutOfFuel"
| "processSelectionSet (Suc n) w ctx result selectionSet mergeOverrides typename st =
     processSelections n w ctx result typename (selections selectionSet)
       (initialFields typename) mergeOverrides st"
| "processSelections n w ctx result typename [] mergedFields mergeOverrides st =
     Inr (mergedFields, mergeOverrides, st)"
| "processSelections n w ctx result typename (selection # rest) mergedFields mergeOverrides st =
     (case processSelection n w ctx result typename selection mergedFields mergeOverrides st of
        Inl e \<Rightarrow> Inl e
      | Inr acc \<Rightarrow>
          processSelections n w ctx result typename rest
            (fst acc) (fst (snd acc)) (snd (snd acc)))"
| "processSelection n w ctx result typename selection mergedFields mergeOverrides st =
     (case shouldInclude w selection (variables ctx) of
        Inl e \<Rightarrow> Inl e
      | Inr included \<Rightarrow>
          if \<not> included then Inr (mergedFields, mergeOverrides, st)
          else
            (case isField selection of
               Some field \<Rightarrow>
                 (case getField result (resultKeyNameFromField field) of
                    Some value \<Rightarrow>
                      (case processFieldValue n w ctx value field st of
                         Inl e \<Rightarrow> Inl e
                       | Inr processed \<Rightarrow>
                           Inr (mergeFields mergedFields
                                  [(getStoreFieldName (policies w) typename field
                                      (variables ctx),
                                    fst processed)],
                                recordOverride
                                  (getFieldMergeFunction (policies w) typename field
                                     (variables ctx))
                                  (fst (snd processed))
                                  (getStoreFieldName (policies w) typename field
                                     (variables ctx))
                                  mergeOverrides,
                                snd (snd processed)))
                  | None \<Rightarrow>
                      Inr (mergedFields, mergeOverrides, warnMissing w field result st))
             | None \<Rightarrow>
                 (case getFragmentFromSelection selection (fragmentMap ctx) of
                    Inl e \<Rightarrow> Inl e
                  | Inr fragment \<Rightarrow>
                      if fragmentMatches (policies w) fragment typename
                      then
                        (case processSelectionSet n w ctx result (fr_selectionSet fragment)
                                mergeOverrides typename st of
                           Inl e \<Rightarrow> Inl e
                         | Inr processed \<Rightarrow>
                             Inr (mergeFields mergedFields (fst processed),
                                  (case fst (snd processed) of
                                     None \<Rightarrow> mergeOverrides
                                   | Some mo \<Rightarrow> Some mo),
                                  snd (snd processed)))
                      else Inr (mergedFields, mergeOverrides, st))))"
| "processFieldValue 0 w ctx value field st = Inl OutOfFuel"
| "processFieldValue (Suc n) w ctx value field st =
     (case f_selectionSet field of
        None \<Rightarrow> Inr (leafValue w value, None, st)
      | Some selectionSet \<Rightarrow>
          if value = JNull then Inr (leafValue w value, None, st)
          else
            (case arrayItems value of
               Some items \<Rightarrow>
                 (case processItems n w ctx items 0 field st of
                    Inl e \<Rightarrow> Inl e
                  | Inr mapped \<Rightarrow> Inr (JArr (fst mapped), snd mapped))
             | None \<Rightarrow>
                 (case (if truthy value
                        then identify (policies w) value selectionSet (fragmentMap ctx)
                        else None) of
                    Some dataId \<Rightarrow>
                      (case writeSelectionSetToStore n w ctx dataId value selectionSet st of
                         Inl e \<Rightarrow> Inl e
                       | Inr st' \<Rightarrow> Inr (makeReference dataId, None, st'))
                  | None \<Rightarrow>
                      (case getTypenameFromResult w value selectionSet (fragmentMap ctx) of
                         Inl e \<Rightarrow> Inl e
                       | Inr typename \<Rightarrow>
                           (case processSelectionSet n w ctx value selectionSet None typename st of
                              Inl e \<Rightarrow> Inl e
                            | Inr processed \<Rightarrow> Inr (JObj (fst processed), snd processed))))))"
| "processItems n w ctx [] i field st = Inr ([], None, st)"
| "processItems n w ctx (item # items) i field st =
     (case processFieldValue n w ctx item field st of
        Inl e \<Rightarrow> Inl e
      | Inr processed \<Rightarrow>
          (case processItems n w ctx items (Suc i) field (snd (snd processed)) of
             Inl e \<Rightarrow> Inl e
           | Inr mapped \<Rightarrow>
               Inr (fst processed # fst mapped,
                    itemOverrides i (fst (snd processed)) (fst (snd mapped)),
                    snd (snd mapped))))"
  by pat_completeness auto

termination
  by (relation "measures
       [case_sum (case_sum fst (case_sum fst fst)) (case_sum fst (case_sum fst fst)),
        case_sum (case_sum (\<lambda>_. 0) (case_sum (\<lambda>_. 0) (\<lambda>_. 2)))
          (case_sum (\<lambda>_. 1) (case_sum (\<lambda>_. 0) (\<lambda>_. 1))),
        case_sum
          (case_sum (\<lambda>_. 0)
             (case_sum (\<lambda>_. 0) (\<lambda>a. length (fst (snd (snd (snd (snd (snd a)))))))))
          (case_sum (\<lambda>_. 0)
             (case_sum (\<lambda>_. 0) (\<lambda>a. length (fst (snd (snd (snd a)))))))]")
     simp_all

subsection \<open>writeQueryToStore\<close>

text \<open>Modelled from the spec: \<^verbatim>\<open>getOperationDefinition\<close> (getFromAST): the operation of
  the document.\<close>

definition getOperationDefinition :: "DocumentNode \<Rightarrow> DefinitionNode option" where
  "getOperationDefinition query =
     (case filter (\<lambda>d. case d of OperationDefinition vs ss \<Rightarrow> True | _ \<Rightarrow> False) query of
        [] \<Rightarrow> None
      | d # _ \<Rightarrow> Some d)"

text \<open>Modelled from the spec: \<^verbatim>\<open>getDefaultValues\<close> (getFromAST): the default values of the
  variables that the operation declares with one.\<close>

definition getDefaultValues :: "DefinitionNode \<Rightarrow> variables" where
  "getDefaultValues operationDefinition =
     (case operationDefinition of
        OperationDefinition vs ss \<Rightarrow>
          foldl (\<lambda>m vd. case snd vd of None \<Rightarrow> m | Some v \<Rightarrow> m(fst vd \<mapsto> v)) Map.empty vs
      | _ \<Rightarrow> Map.empty)"

text \<open>Modelled from the spec: \<^verbatim>\<open>createFragmentMap(getFragmentDefinitions(query))\<close>: the
  fragment definitions of the document by name.\<close>

definition createFragmentMap :: "DocumentNode \<Rightarrow> FragmentMap" where
  "createFragmentMap query =
     foldl
       (\<lambda>m d. case d of
                 FragmentDefinition n tc ss \<Rightarrow>
                   m(n \<mapsto> \<lparr>fr_typeCondition = Some tc, fr_selectionSet = ss\<rparr>)
               | _ \<Rightarrow> m)
       Map.empty query"

text \<open>\<^verbatim>\<open>{ ...getDefaultValues(operationDefinition), ...variables }\<close>.\<close>

definition spreadVariables :: "variables \<Rightarrow> variables option \<Rightarrow> variables" where
  "spreadVariables defaults vars = defaults ++ (case vars of None \<Rightarrow> Map.empty | Some v \<Rightarrow> v)"

text \<open>
  The entry point. An argument that the caller leaves out is \<open>None\<close>. The store that the
  method returns is \<open>store\<close> of the state returned here, which also holds the trace of the
  write. \<^verbatim>\<open>store.retain\<close> comes before the first read of the operation, which throws when
  the document has none.
\<close>

definition writeQueryToStore ::
  "nat \<Rightarrow> StoreWriter \<Rightarrow> DocumentNode \<Rightarrow> jsval option \<Rightarrow> string option
   \<Rightarrow> NormalizedCache option \<Rightarrow> variables option \<Rightarrow> error + wstate" where
  "writeQueryToStore n w query result dataIdArg storeArg vars =
     (let dataId = (case dataIdArg of None \<Rightarrow> ''ROOT_QUERY'' | Some d \<Rightarrow> d);
          store0 = (case storeArg of None \<Rightarrow> defaultNormalizedCacheFactory | Some s \<Rightarrow> s);
          st0 = \<lparr>store = store_retain store0 dataId, written = Map.empty,
                  trace = [Retain dataId]\<rparr>
      in case getOperationDefinition query of
           None \<Rightarrow> Inl (TypeError ''Cannot read properties of undefined'')
         | Some operationDefinition \<Rightarrow>
             writeSelectionSetToStore n w
               \<lparr>variables = spreadVariables (getDefaultValues operationDefinition) vars,
                fragmentMap = createFragmentMap query\<rparr>
               dataId
               (case js_or result (Some (JObj [])) of Some r \<Rightarrow> r | None \<Rightarrow> JObj [])
               (op_selectionSet operationDefinition) st0)"

subsection \<open>Values with the identity of their objects\<close>

text \<open>
  A \<open>jsval\<close> has no identity, so it cannot say whether two values share an object. For
  the leaf of line 297 the same values are given here with the address of every array
  and object: two values share mutable structure when an address occurs in both.
\<close>

datatype ival =
    INull
  | IBool bool
  | INum int
  | IStr string
  | IArr nat "ival list"
  | IObj nat "(string \<times> ival) list"

text \<open>The value without the addresses.\<close>

fun erase :: "ival \<Rightarrow> jsval"
and eraseItems :: "ival list \<Rightarrow> jsval list"
and eraseFields :: "(string \<times> ival) list \<Rightarrow> (string \<times> jsval) list" where
  "erase INull = JNull"
| "erase (IBool b) = JBool b"
| "erase (INum n) = JNum n"
| "erase (IStr s) = JStr s"
| "erase (IArr a xs) = JArr (eraseItems xs)"
| "erase (IObj a kvs) = JObj (eraseFields kvs)"
| "eraseItems [] = []"
| "eraseItems (x # xs) = erase x # eraseItems xs"
| "eraseFields [] = []"
| "eraseFields (kv # kvs) = (fst kv, erase (snd kv)) # eraseFields kvs"

text \<open>The addresses of the arrays and objects of a value.\<close>

fun addrs :: "ival \<Rightarrow> nat set"
and addrsItems :: "ival list \<Rightarrow> nat set"
and addrsFields :: "(string \<times> ival) list \<Rightarrow> nat set" where
  "addrs INull = {}"
| "addrs (IBool b) = {}"
| "addrs (INum n) = {}"
| "addrs (IStr s) = {}"
| "addrs (IArr a xs) = insert a (addrsItems xs)"
| "addrs (IObj a kvs) = insert a (addrsFields kvs)"
| "addrsItems [] = {}"
| "addrsItems (x # xs) = addrs x \<union> addrsItems xs"
| "addrsFields [] = {}"
| "addrsFields (kv # kvs) = addrs (snd kv) \<union> addrsFields kvs"

text \<open>
  Modelled from the spec: \<^verbatim>\<open>cloneDeep\<close> (utilities/common), a deep copy: every array and
  object of the value is allocated anew, at the next free address, which is threaded
  through the copy.
\<close>

fun cloneDeepAt :: "nat \<Rightarrow> ival \<Rightarrow> ival \<times> nat"
and cloneItems :: "nat \<Rightarrow> ival list \<Rightarrow> ival list \<times> nat"
and cloneFields :: "nat \<Rightarrow> (string \<times> ival) list \<Rightarrow> (string \<times> ival) list \<times> nat" where
  "cloneDeepAt fresh INull = (INull, fresh)"
| "cloneDeepAt fresh (IBool b) = (IBool b, fresh)"
| "cloneDeepAt fresh (INum n) = (INum n, fresh)"
| "cloneDeepAt fresh (IStr s) = (IStr s, fresh)"
| "cloneDeepAt fresh (IArr a xs) =
     (case cloneItems (Suc fresh) xs of (xs', fresh') \<Rightarrow> (IArr fresh xs', fresh'))"
| "cloneDeepAt fresh (IObj a kvs) =
     (case cloneFields (Suc fresh) kvs of (kvs', fresh') \<Rightarrow> (IObj fresh kvs', fresh'))"
| "cloneItems fresh [] = ([], fresh)"
| "cloneItems fresh (x # xs) =
     (case cloneDeepAt fresh x of
        (x', fresh1) \<Rightarrow>
          (case cloneItems fresh1 xs of (xs', fresh2) \<Rightarrow> (x' # xs', fresh2)))"
| "cloneFields fresh [] = ([], fresh)"
| "cloneFields fresh (kv # kvs) =
     (case cloneDeepAt fresh (snd kv) of
        (v', fresh1) \<Rightarrow>
          (case cloneFields fresh1 kvs of (kvs', fresh2) \<Rightarrow> ((fst kv, v') # kvs', fresh2)))"

text \<open>Line 297 on values with identity:
  \<^verbatim>\<open>process.env.NODE_ENV === 'production' ? value : cloneDeep(value)\<close>.\<close>

definition leafValueAt :: "bool \<Rightarrow> nat \<Rightarrow> ival \<Rightarrow> ival \<times> nat" where
  "leafValueAt inProduction fresh v =
     (if inProduction then (v, fresh) else cloneDeepAt fresh v)"

text \<open>
  A later mutation by the caller: the value as it reads after the array or object at
  address \<open>a\<close> has been given the content \<open>new\<close>.
\<close>

fun writeAt :: "nat \<Rightarrow> ival \<Rightarrow> ival \<Rightarrow> ival"
and writeAtItems :: "nat \<Rightarrow> ival \<Rightarrow> ival list \<Rightarrow> ival list"
and writeAtFields :: "nat \<Rightarrow> ival \<Rightarrow> (string \<times> ival) list \<Rightarrow> (string \<times> ival) list" where
  "writeAt a new INull = INull"
| "writeAt a new (IBool b) = IBool b"
| "writeAt a new (INum n) = INum n"
| "writeAt a new (IStr s) = IStr s"
| "writeAt a new (IArr b xs) = (if b = a then new else IArr b (writeAtItems a new xs))"
| "writeAt a new (IObj b kvs) = (if b = a then new else IObj b (writeAtFields a new kvs))"
| "writeAtItems a new [] = []"
| "writeAtItems a new (x # xs) = writeAt a new x # writeAtItems a new xs"
| "writeAtFields a new [] = []"
| "writeAtFields a new (kv # kvs) = (fst kv, writeAt a new (snd kv)) # writeAtFields a new kvs"

subsection \<open>An example configuration\<close>

text \<open>
  Modelled from the spec: \<^verbatim>\<open>shouldInclude\<close> (utilities/graphql/directives): a selection is
  skipped when one of its \<^verbatim>\<open>skip\<close> or \<^verbatim>\<open>include\<close> directives evaluates to false against
  the variables; the \<^verbatim>\<open>if\<close> argument is a value or a variable, and a variable that is not
  bound is an error.
\<close>

definition directiveIncludes :: "variables \<Rightarrow> DirectiveNode \<Rightarrow> error + bool" where
  "directiveIncludes vars d =
     (if d_name d \<noteq> ''skip'' \<and> d_name d \<noteq> ''include'' then Inr True
      else
        case map_of (d_arguments d) ''if'' of
          None \<Rightarrow> Inl (InvariantViolation ''Incorrect number of arguments'')
        | Some (Literal v) \<Rightarrow> Inr (if d_name d = ''skip'' then \<not> truthy v else truthy v)
        | Some (Variable x) \<Rightarrow>
            (case vars x of
               None \<Rightarrow> Inl (InvariantViolation ''Invalid variable referenced'')
             | Some v \<Rightarrow> Inr (if d_name d = ''skip'' then \<not> truthy v else truthy v)))"

fun everyDirectiveIncludes :: "variables \<Rightarrow> DirectiveNode list \<Rightarrow> error + bool" where
  "everyDirectiveIncludes vars [] = Inr True"
| "everyDirectiveIncludes vars (d # ds) =
     (case directiveIncludes vars d of
        Inl e \<Rightarrow> Inl e
      | Inr b \<Rightarrow> if b then everyDirectiveIncludes vars ds else Inr False)"

definition directivesOf :: "SelectionNode \<Rightarrow> DirectiveNode list" where
  "directivesOf selection =
     (case selection of
        FieldSel field \<Rightarrow> f_directives field
      | FragmentSpreadSel n ds \<Rightarrow> ds
      | InlineFragmentSel tc ds ss \<Rightarrow> ds)"

definition shouldIncludeByDirectives :: "SelectionNode \<Rightarrow> variables \<Rightarrow> error + bool" where
  "shouldIncludeByDirectives selection vars =
     everyDirectiveIncludes vars (directivesOf selection)"

text \<open>
  A writer to run the model on: entities are keyed by \<^verbatim>\<open>__typename:id\<close>, a field is stored
  under its name, no field has a merge function, a fragment matches when it has no type
  condition or its type condition is the type name, a selection is included as its
  directives say, and the type name of a result object is its \<^verbatim>\<open>__typename\<close> when that is
  a string.
\<close>

definition examplePolicies :: Policies where
  "examplePolicies =
     \<lparr>rootTypenamesById = [''ROOT_QUERY'' \<mapsto> ''Query''],
      usingPossibleTypes = True,
      identify = (\<lambda>value ss fm.
        case getField value ''__typename'' of
          Some (JStr t) \<Rightarrow>
            (case getField value ''id'' of Some (JStr i) \<Rightarrow> Some (t @ '':'' @ i) | _ \<Rightarrow> None)
        | _ \<Rightarrow> None),
      getStoreFieldName = (\<lambda>typename field vars. f_name field),
      getFieldMergeFunction = (\<lambda>typename field vars. None),
      fragmentMatches = (\<lambda>fragment typename.
        case fr_typeCondition fragment of None \<Rightarrow> True | Some c \<Rightarrow> typename = Some (JStr c))\<rparr>"

definition exampleWriter :: StoreWriter where
  "exampleWriter =
     \<lparr>policies = examplePolicies,
      shouldInclude = shouldIncludeByDirectives,
      getTypenameFromResult = (\<lambda>result ss fm.
        Inr (case getField result ''__typename'' of Some (JStr t) \<Rightarrow> Some (JStr t) | _ \<Rightarrow> None)),
      production = False\<rparr>"

definition exampleContext :: WriteContext where
  "exampleContext = \<lparr>variables = Map.empty, fragmentMap = Map.empty\<rparr>"

definition exampleFuel :: nat where
  "exampleFuel = Suc (Suc (Suc (Suc (Suc (Suc 0)))))"

definition emptyState :: wstate where
  "emptyState = \<lparr>store = defaultNormalizedCacheFactory, written = Map.empty, trace = []\<rparr>"

text \<open>A field without arguments, directives or alias.\<close>

definition plainField :: "string \<Rightarrow> SelectionSetNode option \<Rightarrow> FieldNode" where
  "plainField n ss = FieldNode None n [] [] ss"

text \<open>The query \<^verbatim>\<open>{ pet { __typename id kind } }\<close> and a result for it.\<close>

definition petSelectionSet :: SelectionSetNode where
  "petSelectionSet =
     SelectionSetNode 2
       [FieldSel (plainField ''__typename'' None), FieldSel (plainField ''id'' None),
        FieldSel (plainField ''kind'' None)]"

definition petQuerySelectionSet :: SelectionSetNode where
  "petQuerySelectionSet =
     SelectionSetNode 1 [FieldSel (plainField ''pet'' (Some petSelectionSet))]"

definition petValue :: jsval where
  "petValue = JObj [(''__typename'', JStr ''Pet''), (''id'', JStr ''9''), (''kind'', JStr ''cat'')]"

definition petResult :: jsval where
  "petResult = JObj [(''pet'', petValue)]"













text \<open>
  A document whose fragment spreads itself inside its own field,
  \<^verbatim>\<open>query { user { ...F } } fragment F on User { __typename id friend { ...F } }\<close>,
  which the writer takes as it takes any document, and a result in which two users are
  each the friend of the other.
\<close>

definition friendSelectionSet :: SelectionSetNode where
  "friendSelectionSet = SelectionSetNode 11 [FragmentSpreadSel ''F'' []]"

definition userFragmentSelectionSet :: SelectionSetNode where
  "userFragmentSelectionSet =
     SelectionSetNode 10
       [FieldSel (plainField ''__typename'' None), FieldSel (plainField ''id'' None),
        FieldSel (plainField ''friend'' (Some friendSelectionSet))]"

definition friendsQuery :: DocumentNode where
  "friendsQuery =
     [OperationDefinition []
        (SelectionSetNode 12
           [FieldSel (plainField ''user'' (Some (SelectionSetNode 13 [FragmentSpreadSel ''F'' []])))]),
      FragmentDefinition ''F'' ''User'' userFragmentSelectionSet]"

definition user :: "string \<Rightarrow> (string \<times> jsval) list \<Rightarrow> jsval" where
  "user i rest = JObj ([(''__typename'', JStr ''User''), (''id'', JStr i)] @ rest)"

definition friendsResult :: jsval where
  "friendsResult =
     JObj [(''user'',
        user ''1'' [(''friend'',
          user ''2'' [(''friend'',
            user ''1'' [(''friend'', user ''2'' [])])])])]"



text \<open>A leaf value \<^verbatim>\<open>{ tags: ["a"] }\<close> with its object at address 0 and its array at
  address 1.\<close>

definition exampleInput :: ival where
  "exampleInput = IObj 0 [(''tags'', IArr 1 [IStr ''a''])]"

declare processSelection.simps [simp del]

text \<open>
  What every step of a write keeps: the trace grows at its end, no selection set leaves
  the \<^verbatim>\<open>written\<close> table, and the retained roots stay as they are.
\<close>

definition extends :: "wstate \<Rightarrow> wstate \<Rightarrow> bool" where
  "extends st st' =
     ((\<exists>evs. trace st' = trace st @ evs) \<and>
      (\<forall>d. set (writtenSets st d) \<subseteq> set (writtenSets st' d)) \<and>
      rootIds (store st') = rootIds (store st))"




section \<open>Properties\<close>

subsection \<open>What a write keeps\<close>

lemma extends_refl: "extends st st"
  by (simp add: extends_def)

lemma extends_trans: "extends a b \<Longrightarrow> extends b c \<Longrightarrow> extends a c"
  by (fastforce simp: extends_def)

lemma extends_warnMissing: "extends st (warnMissing w field result st)"
  by (simp add: extends_def warnMissing_def writtenSets_def)

lemma extends_written:
  "extends st (st\<lparr>written := (written st)(d \<mapsto> writtenSets st d @ [ss])\<rparr>)"
  by (auto simp: extends_def writtenSets_def)

lemma commit_cases:
  "commit dataId fm mo st = Inr st' \<Longrightarrow>
   \<exists>fm'. st' = st\<lparr>store := store_merge (store st) dataId fm' (resolvedPositions mo),
                  trace := trace st @ [Merge dataId fm']\<rparr>"
  unfolding commit_def
  apply (cases "case mo of None \<Rightarrow> Inr (Some (JObj fm)) | Some ov \<Rightarrow>
                walkWithMergeOverrides (map_option JObj (store_get (store st) dataId))
                  (Some (JObj fm)) ov")
   apply simp
  subgoal for r
    apply (cases r)
     apply simp
    subgoal for v
      apply (cases v)
            apply simp_all
      apply blast
      done
    done
  done

lemma commit_extends: "commit dataId fm mo st = Inr st' \<Longrightarrow> extends st st'"
  by (drule commit_cases) (auto simp: extends_def writtenSets_def store_merge_def)

lemma extends_all:
  "\<forall>st'. writeSelectionSetToStore n w ctx dataId result ss st = Inr st' \<longrightarrow> extends st st'"
  "\<forall>p. processSelectionSet n w ctx result ss mo tn st = Inr p \<longrightarrow> extends st (snd (snd p))"
  "\<forall>p. processSelections n w ctx result tn sels mf mo st = Inr p \<longrightarrow> extends st (snd (snd p))"
  "\<forall>p. processSelection n w ctx result tn sel mf mo st = Inr p \<longrightarrow> extends st (snd (snd p))"
  "\<forall>p. processFieldValue n w ctx v field st = Inr p \<longrightarrow> extends st (snd (snd p))"
  "\<forall>p. processItems n w ctx items i field st = Inr p \<longrightarrow> extends st (snd (snd p))"
proof (induct n w ctx dataId result ss st and n w ctx result ss mo tn st
    and n w ctx result tn sels mf mo st and n w ctx result tn sel mf mo st
    and n w ctx v field st and n w ctx items i field st
    rule: writeSelectionSetToStore_processSelectionSet_processSelections_processSelection_processFieldValue_processItems.induct)
  case (1 w ctx dataId result selectionSet st)
  then show ?case by simp
next
  case (2 n w ctx dataId result selectionSet st)
  show ?case
  proof (intro allI impI)
    fix st'
    assume A: "writeSelectionSetToStore (Suc n) w ctx dataId result selectionSet st = Inr st'"
    show "extends st st'"
    proof (cases "selectionSet \<in> set (writtenSets st dataId)")
      case True
      with A show ?thesis by (simp add: extends_refl)
    next
      case False
      let ?st1 = "st\<lparr>written := (written st)(dataId \<mapsto> writtenSets st dataId @ [selectionSet])\<rparr>"
      from A False obtain b p where
        G: "getTypenameFromResult w result selectionSet (fragmentMap ctx) = Inr b" and
        P: "processSelectionSet n w ctx result selectionSet None
              (resolveTypename w (store st) dataId b) ?st1 = Inr p" and
        C: "commit dataId (fst p) (fst (snd p)) (snd (snd p)) = Inr st'"
        by (auto split: sum.splits)
      from "2.hyps"[OF False G] P have "extends ?st1 (snd (snd p))" by simp
      with extends_written have "extends st (snd (snd p))" by (rule extends_trans)
      then show ?thesis using commit_extends[OF C] by (rule extends_trans)
    qed
  qed
next
  case (3 w ctx result selectionSet mergeOverrides typename st)
  then show ?case by simp
next
  case (4 n w ctx result selectionSet mergeOverrides typename st)
  then show ?case by simp
next
  case (5 n w ctx result typename mergedFields mergeOverrides st)
  then show ?case by (simp add: extends_refl)
next
  case (6 n w ctx result typename selection rest mergedFields mergeOverrides st)
  show ?case
  proof (intro allI impI)
    fix p
    assume A: "processSelections n w ctx result typename (selection # rest) mergedFields
                 mergeOverrides st = Inr p"
    then obtain acc where
      S: "processSelection n w ctx result typename selection mergedFields mergeOverrides st
            = Inr acc" and
      R: "processSelections n w ctx result typename rest (fst acc) (fst (snd acc))
            (snd (snd acc)) = Inr p"
      by (auto split: sum.splits)
    from "6.hyps"(1) S have "extends st (snd (snd acc))" by simp
    moreover from "6.hyps"(2)[OF S] R have "extends (snd (snd acc)) (snd (snd p))" by simp
    ultimately show "extends st (snd (snd p))" by (rule extends_trans)
  qed
next
  case (7 n w ctx result typename selection mergedFields mergeOverrides st)
  show ?case
  proof (intro allI impI)
    fix p
    assume A0: "processSelection n w ctx result typename selection mergedFields
                 mergeOverrides st = Inr p"
    note A = A0[unfolded processSelection.simps]
    from A obtain included where I: "shouldInclude w selection (variables ctx) = Inr included"
      by (auto split: sum.splits)
    show "extends st (snd (snd p))"
    proof (cases included)
      case False
      with A I show ?thesis by (auto simp: extends_refl)
    next
      case True
      note inc = I True
      show ?thesis
      proof (cases "isField selection")
        case (Some field)
        show ?thesis
        proof (cases "getField result (resultKeyNameFromField field)")
          case None
          with A inc Some show ?thesis by (auto simp: extends_warnMissing)
        next
          case (Some "value")
          with A inc \<open>isField selection = Some field\<close> obtain pr where
            F: "processFieldValue n w ctx value field st = Inr pr" and
            E: "snd (snd p) = snd (snd pr)"
            by (auto split: sum.splits)
          from "7.hyps"(2)[OF I _ \<open>isField selection = Some field\<close> Some] True F E
          show ?thesis by simp
        qed
      next
        case None
        with A inc obtain fragment where
          G: "getFragmentFromSelection selection (fragmentMap ctx) = Inr fragment"
          by (auto split: sum.splits)
        show ?thesis
        proof (cases "fragmentMatches (policies w) fragment typename")
          case False
          with A inc None G show ?thesis by (auto simp: extends_refl)
        next
          case M: True
          with A inc None G obtain pr where
            F: "processSelectionSet n w ctx result (fr_selectionSet fragment) mergeOverrides
                  typename st = Inr pr" and
            E: "snd (snd p) = snd (snd pr)"
            by (auto split: sum.splits)
          from "7.hyps"(1)[OF I _ None G M] True F E show ?thesis by simp
        qed
      qed
    qed
  qed
next
  case (8 w ctx "value" field st)
  then show ?case by simp
next
  case (9 n w ctx "value" field st)
  show ?case
  proof (intro allI impI)
    fix p
    assume A: "processFieldValue (Suc n) w ctx value field st = Inr p"
    show "extends st (snd (snd p))"
    proof (cases "f_selectionSet field")
      case None
      with A show ?thesis by (auto simp: extends_refl)
    next
      case (Some selectionSet)
      note ss = Some
      show ?thesis
      proof (cases "value = JNull")
        case True
        with A ss show ?thesis by (auto simp: extends_refl)
      next
        case False
        note nn = False
        show ?thesis
        proof (cases "arrayItems value")
          case (Some items)
          with A ss nn obtain m where
            F: "processItems n w ctx items 0 field st = Inr m" and
            E: "snd (snd p) = snd (snd m)"
            by (auto split: sum.splits)
          from "9.hyps"(3)[OF ss nn Some] F E show ?thesis by simp
        next
          case None
          note na = None
          show ?thesis
          proof (cases "if truthy value
                        then identify (policies w) value selectionSet (fragmentMap ctx)
                        else None")
            case (Some dataId)
            with A ss nn na obtain st' where
              F: "writeSelectionSetToStore n w ctx dataId value selectionSet st = Inr st'" and
              E: "snd (snd p) = st'"
              by (auto split: sum.splits)
            from "9.hyps"(2)[OF ss nn na Some] F E show ?thesis by simp
          next
            case None
            with A ss nn na obtain tn pr where
              G: "getTypenameFromResult w value selectionSet (fragmentMap ctx) = Inr tn" and
              F: "processSelectionSet n w ctx value selectionSet None tn st = Inr pr" and
              E: "snd (snd p) = snd (snd pr)"
              by (auto split: sum.splits)
            from "9.hyps"(1)[OF ss nn na None G] F E show ?thesis by simp
          qed
        qed
      qed
    qed
  qed
next
  case (10 n w ctx i field st)
  then show ?case by (simp add: extends_refl)
next
  case (11 n w ctx item items i field st)
  show ?case
  proof (intro allI impI)
    fix p
    assume A: "processItems n w ctx (item # items) i field st = Inr p"
    then obtain pr m where
      F: "processFieldValue n w ctx item field st = Inr pr" and
      R: "processItems n w ctx items (Suc i) field (snd (snd pr)) = Inr m" and
      E: "snd (snd p) = snd (snd m)"
      by (auto split: sum.splits)
    from "11.hyps"(1) F have "extends st (snd (snd pr))" by simp
    moreover from "11.hyps"(2)[OF F] R have "extends (snd (snd pr)) (snd (snd m))" by simp
    ultimately show "extends st (snd (snd p))" unfolding E by (rule extends_trans)
  qed
qed


subsection \<open>Unfolding the model on an example\<close>

lemmas example_defs =
  exampleFuel_def exampleWriter_def examplePolicies_def exampleContext_def emptyState_def
  plainField_def petSelectionSet_def petQuerySelectionSet_def petValue_def petResult_def
  shouldIncludeByDirectives_def directivesOf_def directiveIncludes_def

lemmas model_defs =
  processSelection.simps writtenSets_def resolveTypename_def js_or_def getField_def
  store_getFieldValue_def store_get_def store_merge_def defaultNormalizedCacheFactory_def
  resolvedPositions_def below_def
  initialFields_def isField_def resultKeyNameFromField_def arrayItems_def leafValue_def
  cloneDeep_def recordOverride_def warnMissing_def warnsMissing_def commit_def
  makeReference_def itemOverrides_def getFragmentFromSelection_def

subsection \<open>The dedup table\<close>

lemma writeSelectionSetToStore_marks_written:
  assumes "writeSelectionSetToStore m w ctx dataId result selectionSet st = Inr st'"
  shows "selectionSet \<in> set (writtenSets st' dataId)"
proof (cases m)
  case 0
  with assms show ?thesis by simp
next
  case (Suc n)
  note A = assms[unfolded Suc]
  show ?thesis
  proof (cases "selectionSet \<in> set (writtenSets st dataId)")
    case True
    with A show ?thesis by simp
  next
    case False
    let ?st1 = "st\<lparr>written := (written st)(dataId \<mapsto> writtenSets st dataId @ [selectionSet])\<rparr>"
    from A False obtain b p where
      P: "processSelectionSet n w ctx result selectionSet None
            (resolveTypename w (store st) dataId b) ?st1 = Inr p" and
      C: "commit dataId (fst p) (fst (snd p)) (snd (snd p)) = Inr st'"
      by (auto split: sum.splits)
    from extends_all(2) P have "extends ?st1 (snd (snd p))" by blast
    then have "extends ?st1 st'" using commit_extends[OF C] by (rule extends_trans)
    moreover have "selectionSet \<in> set (writtenSets ?st1 dataId)"
      by (simp add: writtenSets_def)
    ultimately show ?thesis by (auto simp: extends_def)
  qed
qed

text \<open>
  Claim C1. If the pair of entity key and selection set is already in the \<^verbatim>\<open>written\<close>
  table of the context, \<^verbatim>\<open>writeSelectionSetToStore\<close> returns at once, with the store, the
  table and the trace as they were. So a second write of a pair, after a first write of
  it has returned in the same context, changes nothing, whatever result object it is
  given: within one top-level write, writing a pair twice leaves the same state as
  writing it once.
\<close>

theorem written_pair_is_not_processed_again:
  "(selectionSet \<in> set (writtenSets st dataId) \<longrightarrow>
      writeSelectionSetToStore (Suc n) w ctx dataId result selectionSet st = Inr st) \<and>
   (writeSelectionSetToStore m w ctx dataId result selectionSet st = Inr st' \<longrightarrow>
      writeSelectionSetToStore (Suc n) w ctx dataId result' selectionSet st' = Inr st')"
  using writeSelectionSetToStore_marks_written[of m w ctx dataId result selectionSet st st']
  by simp

theorem written_pair_is_not_processed_again_witness:
  "writeSelectionSetToStore exampleFuel exampleWriter exampleContext ''ROOT_QUERY''
     petResult petQuerySelectionSet emptyState =
   Inr (projr (writeSelectionSetToStore exampleFuel exampleWriter exampleContext ''ROOT_QUERY''
     petResult petQuerySelectionSet emptyState)) \<and>
   petQuerySelectionSet \<in> set (writtenSets
     (projr (writeSelectionSetToStore exampleFuel exampleWriter exampleContext ''ROOT_QUERY''
        petResult petQuerySelectionSet emptyState)) ''ROOT_QUERY'') \<and>
   writeSelectionSetToStore (Suc 0) exampleWriter exampleContext ''ROOT_QUERY'' petResult
     petQuerySelectionSet
     (projr (writeSelectionSetToStore exampleFuel exampleWriter exampleContext ''ROOT_QUERY''
        petResult petQuerySelectionSet emptyState)) =
   Inr (projr (writeSelectionSetToStore exampleFuel exampleWriter exampleContext ''ROOT_QUERY''
     petResult petQuerySelectionSet emptyState)) \<and>
   trace (projr (writeSelectionSetToStore exampleFuel exampleWriter exampleContext ''ROOT_QUERY''
     petResult petQuerySelectionSet emptyState)) =
   [Merge ''Pet:9'' [(''__typename'', JStr ''Pet''), (''id'', JStr ''9''), (''kind'', JStr ''cat'')],
    Merge ''ROOT_QUERY'' [(''__typename'', JStr ''Query''), (''pet'', Reference ''Pet:9'')]]"
proof -
  let ?r = "writeSelectionSetToStore exampleFuel exampleWriter exampleContext ''ROOT_QUERY''
     petResult petQuerySelectionSet emptyState"
  have E: "?r = Inr (projr ?r)"
    by (simp add: example_defs model_defs)
  have M: "petQuerySelectionSet \<in> set (writtenSets (projr ?r) ''ROOT_QUERY'')"
    by (simp add: example_defs model_defs)
  have T: "trace (projr ?r) =
   [Merge ''Pet:9'' [(''__typename'', JStr ''Pet''), (''id'', JStr ''9''), (''kind'', JStr ''cat'')],
    Merge ''ROOT_QUERY'' [(''__typename'', JStr ''Query''), (''pet'', Reference ''Pet:9'')]]"
    by (simp add: example_defs model_defs)
  have 1: "writeSelectionSetToStore (Suc 0) exampleWriter exampleContext ''ROOT_QUERY'' petResult
     petQuerySelectionSet (projr ?r) = Inr (projr ?r)"
    using written_pair_is_not_processed_again[where selectionSet = petQuerySelectionSet
        and st = "projr ?r" and dataId = "''ROOT_QUERY''" and n = 0 and w = exampleWriter
        and ctx = exampleContext and result = petResult] M
    by blast
  have 2: "writeSelectionSetToStore (Suc 0) exampleWriter exampleContext ''ROOT_QUERY'' petResult
     petQuerySelectionSet (projr ?r) = Inr (projr ?r)"
    using written_pair_is_not_processed_again[where selectionSet = petQuerySelectionSet
        and st = emptyState and st' = "projr ?r" and dataId = "''ROOT_QUERY''" and n = 0
        and w = exampleWriter and ctx = exampleContext and result = petResult
        and result' = petResult and m = exampleFuel] E
    by blast
  from E M 1 2 T show ?thesis by blast
qed


subsection \<open>The type name\<close>

text \<open>
  Claim C2. When a pair is not yet written, \<^verbatim>\<open>writeSelectionSetToStore\<close> hands to
  \<^verbatim>\<open>processSelectionSet\<close> the first of these three that is there and truthy, as the
  \<^verbatim>\<open>||\<close> of the source reads them: what \<^verbatim>\<open>getTypenameFromResult\<close> finds on the result
  object, the \<^verbatim>\<open>__typename\<close> stored under the entity key, the default type name of the
  policies for the key. When the first two give nothing and the policies have no default
  for the key, the type name is undefined.
\<close>

theorem typename_resolution_order:
  assumes "selectionSet \<notin> set (writtenSets st dataId)"
    and "getTypenameFromResult w result selectionSet (fragmentMap ctx) = Inr fromResult"
  shows
    "writeSelectionSetToStore (Suc n) w ctx dataId result selectionSet st =
       (case processSelectionSet n w ctx result selectionSet None
               (resolveTypename w (store st) dataId fromResult)
               (st\<lparr>written := (written st)(dataId \<mapsto>
                      writtenSets st dataId @ [selectionSet])\<rparr>) of
          Inl e \<Rightarrow> Inl e
        | Inr p \<Rightarrow> commit dataId (fst p) (fst (snd p)) (snd (snd p))) \<and>
     resolveTypename w (store st) dataId fromResult =
       (if \<exists>v. fromResult = Some v \<and> truthy v then fromResult
        else if \<exists>v. store_getFieldValue (store st) dataId ''__typename'' = Some v \<and> truthy v
        then store_getFieldValue (store st) dataId ''__typename''
        else map_option JStr (rootTypenamesById (policies w) dataId)) \<and>
     ((\<nexists>v. fromResult = Some v \<and> truthy v) \<and>
      (\<nexists>v. store_getFieldValue (store st) dataId ''__typename'' = Some v \<and> truthy v) \<and>
      rootTypenamesById (policies w) dataId = None \<longrightarrow>
      resolveTypename w (store st) dataId fromResult = None)"
  using assms
  by (auto simp: resolveTypename_def js_or_def split: option.splits)

theorem typename_resolution_order_witness:
  "petQuerySelectionSet \<notin> set (writtenSets emptyState ''ROOT_QUERY'') \<and>
   getTypenameFromResult exampleWriter petResult petQuerySelectionSet (fragmentMap exampleContext)
     = Inr None \<and>
   resolveTypename exampleWriter (store emptyState) ''ROOT_QUERY'' None = Some (JStr ''Query'') \<and>
   resolveTypename exampleWriter (store emptyState) ''Pet:9'' None = None \<and>
   resolveTypename exampleWriter (store emptyState) ''ROOT_QUERY'' (Some (JStr ''Pet''))
     = Some (JStr ''Pet'') \<and>
   writeSelectionSetToStore (Suc (Suc 0)) exampleWriter exampleContext ''ROOT_QUERY''
     (JObj []) (SelectionSetNode 7 []) emptyState =
   Inr (emptyState\<lparr>store := store_merge (store emptyState) ''ROOT_QUERY''
                                 [(''__typename'', JStr ''Query'')] [],
                     written := [''ROOT_QUERY'' \<mapsto> [SelectionSetNode 7 []]],
                     trace := [Merge ''ROOT_QUERY'' [(''__typename'', JStr ''Query'')]]\<rparr>)"
proof -
  have H1: "SelectionSetNode 7 [] \<notin> set (writtenSets emptyState ''ROOT_QUERY'')"
    by (simp add: example_defs model_defs)
  have H2: "getTypenameFromResult exampleWriter (JObj []) (SelectionSetNode 7 [])
      (fragmentMap exampleContext) = Inr None"
    by (simp add: example_defs model_defs)
  have H3: "getTypenameFromResult exampleWriter petValue petSelectionSet
      (fragmentMap exampleContext) = Inr (Some (JStr ''Pet''))"
    by (simp add: example_defs model_defs)
  have H4: "petSelectionSet \<notin> set (writtenSets emptyState ''ROOT_QUERY'')"
    by (simp add: example_defs model_defs)
  have H5: "petSelectionSet \<notin> set (writtenSets emptyState ''Pet:9'')"
    by (simp add: example_defs model_defs)
  have H6: "getTypenameFromResult exampleWriter (JObj []) petSelectionSet
      (fragmentMap exampleContext) = Inr None"
    by (simp add: example_defs model_defs)
  note A = typename_resolution_order[OF H1 H2, of "Suc 0"]
  note B = typename_resolution_order[OF H4 H3, of 0]
  note C = typename_resolution_order[OF H5 H6, of 0]
  have D: "store_getFieldValue (store emptyState) d ''__typename'' = None" for d
    by (simp add: example_defs model_defs)
  have R1: "rootTypenamesById (policies exampleWriter) ''ROOT_QUERY'' = Some ''Query''"
    by (simp add: example_defs)
  have R2: "rootTypenamesById (policies exampleWriter) ''Pet:9'' = None"
    by (simp add: example_defs)
  have 1: "resolveTypename exampleWriter (store emptyState) ''ROOT_QUERY'' None
      = Some (JStr ''Query'')"
    using A D R1 by simp
  have 2: "resolveTypename exampleWriter (store emptyState) ''Pet:9'' None = None"
    using C D R2 by simp
  have 3: "resolveTypename exampleWriter (store emptyState) ''ROOT_QUERY'' (Some (JStr ''Pet''))
      = Some (JStr ''Pet'')"
    using B by simp
  have 4: "writeSelectionSetToStore (Suc (Suc 0)) exampleWriter exampleContext ''ROOT_QUERY''
     (JObj []) (SelectionSetNode 7 []) emptyState =
   Inr (emptyState\<lparr>store := store_merge (store emptyState) ''ROOT_QUERY''
                                 [(''__typename'', JStr ''Query'')] [],
                     written := [''ROOT_QUERY'' \<mapsto> [SelectionSetNode 7 []]],
                     trace := [Merge ''ROOT_QUERY'' [(''__typename'', JStr ''Query'')]]\<rparr>)"
    using A 1 by (simp add: initialFields_def commit_def writtenSets_def emptyState_def
        resolvedPositions_def)
  have 5: "petQuerySelectionSet \<notin> set (writtenSets emptyState ''ROOT_QUERY'')"
    by (simp add: example_defs model_defs)
  have 6: "getTypenameFromResult exampleWriter petResult petQuerySelectionSet
      (fragmentMap exampleContext) = Inr None"
    by (simp add: example_defs model_defs)
  from 1 2 3 4 5 6 show ?thesis by blast
qed

subsection \<open>The value of a field\<close>

lemma map_of_mergeFields_single:
  "map_of (mergeFields tgt [(k, v)]) k =
     Some (case map_of tgt k of None \<Rightarrow> v | Some t \<Rightarrow> mergeDeep t v)"
proof (cases "map_of tgt k")
  case None
  then show ?thesis by (simp add: map_add_def)
next
  case (Some t)
  then show ?thesis by (simp add: update_conv')
qed

text \<open>
  Claim C3. For a field with a selection set and a value that is an object: when
  \<^verbatim>\<open>policies.identify\<close> returns a key, the object is written by
  \<^verbatim>\<open>writeSelectionSetToStore\<close> under that key, the value of the field is a reference to
  the key, and that reference is what the field map of the parent holds under the storage
  key of the field; when \<^verbatim>\<open>identify\<close> returns nothing, the object goes through
  \<^verbatim>\<open>processSelectionSet\<close> and the value of the field is the resulting field map as an
  object, which the field map of the parent holds as an object.
\<close>

theorem identified_object_becomes_reference:
  assumes "f_selectionSet field = Some selectionSet" and "value = JObj kvs"
  shows
    "(identify (policies w) value selectionSet (fragmentMap ctx) = Some dataId \<longrightarrow>
        processFieldValue (Suc n) w ctx value field st =
          (case writeSelectionSetToStore n w ctx dataId value selectionSet st of
             Inl e \<Rightarrow> Inl e
           | Inr st' \<Rightarrow> Inr (Reference dataId, None, st')) \<and>
        map_of (mergeFields mergedFields [(storeFieldName, Reference dataId)]) storeFieldName =
          Some (Reference dataId)) \<and>
     (identify (policies w) value selectionSet (fragmentMap ctx) = None \<longrightarrow>
        processFieldValue (Suc n) w ctx value field st =
          (case getTypenameFromResult w value selectionSet (fragmentMap ctx) of
             Inl e \<Rightarrow> Inl e
           | Inr typename \<Rightarrow>
               (case processSelectionSet n w ctx value selectionSet None typename st of
                  Inl e \<Rightarrow> Inl e
                | Inr p \<Rightarrow> Inr (JObj (fst p), fst (snd p), snd (snd p)))) \<and>
        (\<forall>fieldMap. \<exists>fieldMap'.
           map_of (mergeFields mergedFields [(storeFieldName, JObj fieldMap)]) storeFieldName =
             Some (JObj fieldMap')))"
proof -
  have 1: "processFieldValue (Suc n) w ctx value field st =
          (case writeSelectionSetToStore n w ctx dataId value selectionSet st of
             Inl e \<Rightarrow> Inl e
           | Inr st' \<Rightarrow> Inr (Reference dataId, None, st'))"
    if "identify (policies w) value selectionSet (fragmentMap ctx) = Some dataId"
    using assms that by (simp add: arrayItems_def makeReference_def split: sum.splits)
  have 2: "map_of (mergeFields mergedFields [(storeFieldName, Reference dataId)]) storeFieldName =
          Some (Reference dataId)"
    unfolding map_of_mergeFields_single by (simp split: option.splits)
  have 3: "processFieldValue (Suc n) w ctx value field st =
          (case getTypenameFromResult w value selectionSet (fragmentMap ctx) of
             Inl e \<Rightarrow> Inl e
           | Inr typename \<Rightarrow>
               (case processSelectionSet n w ctx value selectionSet None typename st of
                  Inl e \<Rightarrow> Inl e
                | Inr p \<Rightarrow> Inr (JObj (fst p), fst (snd p), snd (snd p))))"
    if "identify (policies w) value selectionSet (fragmentMap ctx) = None"
    using assms that by (simp add: arrayItems_def split: sum.splits)
  have 4: "\<exists>fieldMap'.
           map_of (mergeFields mergedFields [(storeFieldName, JObj fieldMap)]) storeFieldName =
             Some (JObj fieldMap')" for fieldMap
    unfolding map_of_mergeFields_single by (simp split: option.splits jsval.splits)
  from 1 2 3 4 show ?thesis by blast
qed

theorem identified_object_becomes_reference_witness:
  "f_selectionSet (plainField ''pet'' (Some petSelectionSet)) = Some petSelectionSet \<and>
   identify (policies exampleWriter) petValue petSelectionSet (fragmentMap exampleContext)
     = Some ''Pet:9'' \<and>
   map_sum id (\<lambda>p. (fst p, fst (snd p), trace (snd (snd p))))
     (processFieldValue exampleFuel exampleWriter exampleContext petValue
        (plainField ''pet'' (Some petSelectionSet)) emptyState) =
   Inr (Reference ''Pet:9'', None,
        [Merge ''Pet:9''
           [(''__typename'', JStr ''Pet''), (''id'', JStr ''9''), (''kind'', JStr ''cat'')]]) \<and>
   identify (policies exampleWriter) (JObj [(''kind'', JStr ''cat'')]) petSelectionSet
     (fragmentMap exampleContext) = None \<and>
   processFieldValue exampleFuel exampleWriter exampleContext (JObj [(''kind'', JStr ''cat'')])
       (plainField ''pet'' (Some petSelectionSet)) emptyState =
     Inr (JObj [(''kind'', JStr ''cat'')], None,
          emptyState\<lparr>trace := [Warn ''__typename'' (JObj [(''kind'', JStr ''cat'')]),
                                 Warn ''id'' (JObj [(''kind'', JStr ''cat'')])]\<rparr>)"
proof -
  have F: "f_selectionSet (plainField ''pet'' (Some petSelectionSet)) = Some petSelectionSet"
    by (simp add: plainField_def)
  have I1: "identify (policies exampleWriter) petValue petSelectionSet (fragmentMap exampleContext)
     = Some ''Pet:9''"
    by (simp add: example_defs model_defs)
  have I2: "identify (policies exampleWriter) (JObj [(''kind'', JStr ''cat'')]) petSelectionSet
     (fragmentMap exampleContext) = None"
    by (simp add: example_defs model_defs)
  have "\<exists>st1. writeSelectionSetToStore (Suc (Suc (Suc (Suc (Suc 0))))) exampleWriter
      exampleContext ''Pet:9'' petValue petSelectionSet emptyState = Inr st1 \<and>
      trace st1 = [Merge ''Pet:9''
           [(''__typename'', JStr ''Pet''), (''id'', JStr ''9''), (''kind'', JStr ''cat'')]]"
    by (simp add: example_defs model_defs)
  then obtain st1 where
    W: "writeSelectionSetToStore (Suc (Suc (Suc (Suc (Suc 0))))) exampleWriter
      exampleContext ''Pet:9'' petValue petSelectionSet emptyState = Inr st1" and
    T: "trace st1 = [Merge ''Pet:9''
           [(''__typename'', JStr ''Pet''), (''id'', JStr ''9''), (''kind'', JStr ''cat'')]]"
    by blast
  have P: "processSelectionSet (Suc (Suc (Suc (Suc (Suc 0))))) exampleWriter exampleContext
      (JObj [(''kind'', JStr ''cat'')]) petSelectionSet None None emptyState =
    Inr ([(''kind'', JStr ''cat'')], None,
         emptyState\<lparr>trace := [Warn ''__typename'' (JObj [(''kind'', JStr ''cat'')]),
                                 Warn ''id'' (JObj [(''kind'', JStr ''cat'')])]\<rparr>)"
    by (simp add: example_defs model_defs)
  have G: "getTypenameFromResult exampleWriter (JObj [(''kind'', JStr ''cat'')]) petSelectionSet
      (fragmentMap exampleContext) = Inr None"
    by (simp add: example_defs model_defs)
  have X1: "processFieldValue (Suc (Suc (Suc (Suc (Suc (Suc 0)))))) exampleWriter exampleContext
        petValue (plainField ''pet'' (Some petSelectionSet)) emptyState =
      (case writeSelectionSetToStore (Suc (Suc (Suc (Suc (Suc 0))))) exampleWriter
          exampleContext ''Pet:9'' petValue petSelectionSet emptyState of
         Inl e \<Rightarrow> Inl e
       | Inr st' \<Rightarrow> Inr (Reference ''Pet:9'', None, st'))"
    using identified_object_becomes_reference[OF F petValue_def,
        where w = exampleWriter and ctx = exampleContext and dataId = "''Pet:9''"
          and n = "Suc (Suc (Suc (Suc (Suc 0))))" and st = emptyState] I1
    by blast
  have 1: "map_sum id (\<lambda>p. (fst p, fst (snd p), trace (snd (snd p))))
     (processFieldValue exampleFuel exampleWriter exampleContext petValue
        (plainField ''pet'' (Some petSelectionSet)) emptyState) =
   Inr (Reference ''Pet:9'', None,
        [Merge ''Pet:9''
           [(''__typename'', JStr ''Pet''), (''id'', JStr ''9''), (''kind'', JStr ''cat'')]])"
    by (simp only: exampleFuel_def X1 W T sum.case map_sum.simps fst_conv snd_conv)
  have X2: "processFieldValue (Suc (Suc (Suc (Suc (Suc (Suc 0)))))) exampleWriter exampleContext
        (JObj [(''kind'', JStr ''cat'')]) (plainField ''pet'' (Some petSelectionSet)) emptyState =
      (case getTypenameFromResult exampleWriter (JObj [(''kind'', JStr ''cat'')]) petSelectionSet
              (fragmentMap exampleContext) of
         Inl e \<Rightarrow> Inl e
       | Inr typename \<Rightarrow>
           (case processSelectionSet (Suc (Suc (Suc (Suc (Suc 0))))) exampleWriter exampleContext
                   (JObj [(''kind'', JStr ''cat'')]) petSelectionSet None typename emptyState of
              Inl e \<Rightarrow> Inl e
            | Inr p \<Rightarrow> Inr (JObj (fst p), fst (snd p), snd (snd p))))"
    using identified_object_becomes_reference[OF F refl,
        where w = exampleWriter and ctx = exampleContext
          and n = "Suc (Suc (Suc (Suc (Suc 0))))" and st = emptyState
          and kvs = "[(''kind'', JStr ''cat'')]"] I2
    by blast
  have 2: "processFieldValue exampleFuel exampleWriter exampleContext (JObj [(''kind'', JStr ''cat'')])
       (plainField ''pet'' (Some petSelectionSet)) emptyState =
     Inr (JObj [(''kind'', JStr ''cat'')], None,
          emptyState\<lparr>trace := [Warn ''__typename'' (JObj [(''kind'', JStr ''cat'')]),
                                 Warn ''id'' (JObj [(''kind'', JStr ''cat'')])]\<rparr>)"
    by (simp only: exampleFuel_def X2 G P sum.case fst_conv snd_conv)
  from F I1 I2 1 2 show ?thesis by blast
qed

subsection \<open>The selections of a selection set\<close>

text \<open>
  Claim C4. A fragment that \<^verbatim>\<open>policies.fragmentMatches\<close> rejects for the type name is
  skipped: the callback returns the merged fields, the merge overrides and the state
  (store, \<^verbatim>\<open>written\<close> table and trace, so no store write and no warning) as they were,
  and the loop goes on with the selections that follow.
\<close>

theorem unmatched_fragment_is_skipped:
  assumes "shouldInclude w selection (variables ctx) = Inr included"
    and "isField selection = None"
    and "getFragmentFromSelection selection (fragmentMap ctx) = Inr fragment"
    and "\<not> fragmentMatches (policies w) fragment typename"
  shows
    "processSelection n w ctx result typename selection mergedFields mergeOverrides st =
       Inr (mergedFields, mergeOverrides, st) \<and>
     processSelections n w ctx result typename (selection # rest) mergedFields mergeOverrides st =
       processSelections n w ctx result typename rest mergedFields mergeOverrides st"
  using assms by (simp add: processSelection.simps)

theorem unmatched_fragment_is_skipped_witness:
  "shouldInclude exampleWriter (InlineFragmentSel (Some ''Dog'') [] petSelectionSet)
     (variables exampleContext) = Inr True \<and>
   isField (InlineFragmentSel (Some ''Dog'') [] petSelectionSet) = None \<and>
   getFragmentFromSelection (InlineFragmentSel (Some ''Dog'') [] petSelectionSet)
     (fragmentMap exampleContext) =
     Inr \<lparr>fr_typeCondition = Some ''Dog'', fr_selectionSet = petSelectionSet\<rparr> \<and>
   \<not> fragmentMatches (policies exampleWriter)
        \<lparr>fr_typeCondition = Some ''Dog'', fr_selectionSet = petSelectionSet\<rparr>
        (Some (JStr ''Cat'')) \<and>
   processSelection exampleFuel exampleWriter exampleContext (JObj [(''kind'', JStr ''cat'')])
     (Some (JStr ''Cat'')) (InlineFragmentSel (Some ''Dog'') [] petSelectionSet)
     [(''__typename'', JStr ''Cat'')] None emptyState =
     Inr ([(''__typename'', JStr ''Cat'')], None, emptyState)"
proof -
  have 1: "shouldInclude exampleWriter (InlineFragmentSel (Some ''Dog'') [] petSelectionSet)
     (variables exampleContext) = Inr True"
    by (simp add: example_defs)
  have 2: "isField (InlineFragmentSel (Some ''Dog'') [] petSelectionSet) = None"
    by (simp add: isField_def)
  have 3: "getFragmentFromSelection (InlineFragmentSel (Some ''Dog'') [] petSelectionSet)
     (fragmentMap exampleContext) =
     Inr \<lparr>fr_typeCondition = Some ''Dog'', fr_selectionSet = petSelectionSet\<rparr>"
    by (simp add: getFragmentFromSelection_def)
  have 4: "\<not> fragmentMatches (policies exampleWriter)
        \<lparr>fr_typeCondition = Some ''Dog'', fr_selectionSet = petSelectionSet\<rparr>
        (Some (JStr ''Cat''))"
    by (simp add: example_defs)
  from unmatched_fragment_is_skipped[OF 1 2 3 4] 1 2 3 4 show ?thesis by blast
qed




subsection \<open>The order of the commits\<close>

text \<open>
  Claim C10, as amended. The \<^verbatim>\<open>store.merge\<close> of an entity is the last step of its
  \<^verbatim>\<open>writeSelectionSetToStore\<close>: every event of the \<^verbatim>\<open>processSelectionSet\<close> call, inside
  which the nested entities are written, is in the trace before it. And when
  \<^verbatim>\<open>processFieldValue\<close> returns for an object that \<^verbatim>\<open>identify\<close> gave a key not yet
  written with this selection set, the \<^verbatim>\<open>store.merge\<close> of that child is already the last
  event of the trace. So the field map of a child is committed before the field map of
  its parent.
\<close>

theorem child_is_committed_before_parent:
  "(writeSelectionSetToStore (Suc n) w ctx dataId result selectionSet st = Inr st' \<and>
    selectionSet \<notin> set (writtenSets st dataId) \<longrightarrow>
      (\<exists>fromResult p evs fieldMap'.
         getTypenameFromResult w result selectionSet (fragmentMap ctx) = Inr fromResult \<and>
         processSelectionSet n w ctx result selectionSet None
           (resolveTypename w (store st) dataId fromResult)
           (st\<lparr>written := (written st)(dataId \<mapsto> writtenSets st dataId @ [selectionSet])\<rparr>)
           = Inr p \<and>
         trace (snd (snd p)) = trace st @ evs \<and>
         trace st' = trace st @ evs @ [Merge dataId fieldMap'] \<and>
         store st' = store_merge (store (snd (snd p))) dataId fieldMap'
           (resolvedPositions (fst (snd p))))) \<and>
   (processFieldValue (Suc n) w ctx value field st = Inr r \<and>
    f_selectionSet field = Some childSelectionSet \<and> value = JObj kvs \<and>
    identify (policies w) value childSelectionSet (fragmentMap ctx) = Some childId \<and>
    childSelectionSet \<notin> set (writtenSets st childId) \<longrightarrow>
      fst r = Reference childId \<and>
      (\<exists>evs fieldMap'. trace (snd (snd r)) = trace st @ evs @ [Merge childId fieldMap']))"
proof -
  have parent: "\<exists>fromResult p evs fieldMap'.
         getTypenameFromResult w result selectionSet (fragmentMap ctx) = Inr fromResult \<and>
         processSelectionSet n w ctx result selectionSet None
           (resolveTypename w (store st) dataId fromResult)
           (st\<lparr>written := (written st)(dataId \<mapsto> writtenSets st dataId @ [selectionSet])\<rparr>)
           = Inr p \<and>
         trace (snd (snd p)) = trace st @ evs \<and>
         trace st' = trace st @ evs @ [Merge dataId fieldMap'] \<and>
         store st' = store_merge (store (snd (snd p))) dataId fieldMap'
           (resolvedPositions (fst (snd p)))"
    if A: "writeSelectionSetToStore (Suc n) w ctx dataId result selectionSet st = Inr st'"
      and N: "selectionSet \<notin> set (writtenSets st dataId)"
    for n w ctx dataId result selectionSet st st'
  proof -
    let ?st1 = "st\<lparr>written := (written st)(dataId \<mapsto> writtenSets st dataId @ [selectionSet])\<rparr>"
    from A N obtain b p where
      G: "getTypenameFromResult w result selectionSet (fragmentMap ctx) = Inr b" and
      P: "processSelectionSet n w ctx result selectionSet None
            (resolveTypename w (store st) dataId b) ?st1 = Inr p" and
      C: "commit dataId (fst p) (fst (snd p)) (snd (snd p)) = Inr st'"
      by (auto split: sum.splits)
    from extends_all(2) P have "extends ?st1 (snd (snd p))" by blast
    then obtain evs where E: "trace (snd (snd p)) = trace st @ evs"
      by (auto simp: extends_def)
    from commit_cases[OF C] obtain fm' where
      S: "st' = (snd (snd p))\<lparr>store := store_merge (store (snd (snd p))) dataId fm'
                                          (resolvedPositions (fst (snd p))),
                               trace := trace (snd (snd p)) @ [Merge dataId fm']\<rparr>"
      by blast
    from S E have "trace st' = trace st @ evs @ [Merge dataId fm']"
      and "store st' = store_merge (store (snd (snd p))) dataId fm'
             (resolvedPositions (fst (snd p)))"
      by simp_all
    with G P E show ?thesis by blast
  qed
  have child: "fst r = Reference childId \<and>
      (\<exists>evs fieldMap'. trace (snd (snd r)) = trace st @ evs @ [Merge childId fieldMap'])"
    if A: "processFieldValue (Suc n) w ctx value field st = Inr r"
      and F: "f_selectionSet field = Some childSelectionSet" and V: "value = JObj kvs"
      and I: "identify (policies w) value childSelectionSet (fragmentMap ctx) = Some childId"
      and N: "childSelectionSet \<notin> set (writtenSets st childId)"
  proof -
    from A F V I obtain st1 where
      W: "writeSelectionSetToStore n w ctx childId value childSelectionSet st = Inr st1" and
      R: "r = (Reference childId, None, st1)"
      by (auto simp: arrayItems_def makeReference_def split: sum.splits)
    from W obtain k where K: "n = Suc k" by (cases n) auto
    from parent[OF W[unfolded K] N] R show ?thesis by auto
  qed
  from parent child show ?thesis by blast
qed

theorem child_is_committed_before_parent_witness:
  "map_sum id trace
     (writeSelectionSetToStore exampleFuel exampleWriter exampleContext ''ROOT_QUERY''
        petResult petQuerySelectionSet emptyState) =
   Inr [Merge ''Pet:9''
          [(''__typename'', JStr ''Pet''), (''id'', JStr ''9''), (''kind'', JStr ''cat'')],
        Merge ''ROOT_QUERY'' [(''__typename'', JStr ''Query''), (''pet'', Reference ''Pet:9'')]] \<and>
   petQuerySelectionSet \<notin> set (writtenSets emptyState ''ROOT_QUERY'') \<and>
   (\<exists>evs fieldMap'.
      map_sum id trace
        (writeSelectionSetToStore exampleFuel exampleWriter exampleContext ''ROOT_QUERY''
           petResult petQuerySelectionSet emptyState) =
      Inr (trace emptyState @ evs @ [Merge ''ROOT_QUERY'' fieldMap']))"
proof -
  have "\<exists>st'. writeSelectionSetToStore exampleFuel exampleWriter exampleContext ''ROOT_QUERY''
        petResult petQuerySelectionSet emptyState = Inr st' \<and>
      trace st' = [Merge ''Pet:9''
          [(''__typename'', JStr ''Pet''), (''id'', JStr ''9''), (''kind'', JStr ''cat'')],
        Merge ''ROOT_QUERY'' [(''__typename'', JStr ''Query''), (''pet'', Reference ''Pet:9'')]]"
    by (simp add: example_defs model_defs)
  then obtain st' where
    W: "writeSelectionSetToStore exampleFuel exampleWriter exampleContext ''ROOT_QUERY''
        petResult petQuerySelectionSet emptyState = Inr st'" and
    T: "trace st' = [Merge ''Pet:9''
          [(''__typename'', JStr ''Pet''), (''id'', JStr ''9''), (''kind'', JStr ''cat'')],
        Merge ''ROOT_QUERY'' [(''__typename'', JStr ''Query''), (''pet'', Reference ''Pet:9'')]]"
    by blast
  have N: "petQuerySelectionSet \<notin> set (writtenSets emptyState ''ROOT_QUERY'')"
    by (simp add: example_defs model_defs)
  from child_is_committed_before_parent[where n = "Suc (Suc (Suc (Suc (Suc 0))))"
      and w = exampleWriter and ctx = exampleContext and dataId = "''ROOT_QUERY''"
      and result = petResult and selectionSet = petQuerySelectionSet and st = emptyState
      and st' = st'] W N
  obtain evs fieldMap' where
    X: "trace st' = trace emptyState @ evs @ [Merge ''ROOT_QUERY'' fieldMap']"
    unfolding exampleFuel_def by blast
  have 1: "map_sum id trace
     (writeSelectionSetToStore exampleFuel exampleWriter exampleContext ''ROOT_QUERY''
        petResult petQuerySelectionSet emptyState) =
   Inr [Merge ''Pet:9''
          [(''__typename'', JStr ''Pet''), (''id'', JStr ''9''), (''kind'', JStr ''cat'')],
        Merge ''ROOT_QUERY'' [(''__typename'', JStr ''Query''), (''pet'', Reference ''Pet:9'')]]"
    by (simp only: W T map_sum.simps id_apply)
  have 3: "\<exists>evs fieldMap'.
      map_sum id trace
        (writeSelectionSetToStore exampleFuel exampleWriter exampleContext ''ROOT_QUERY''
           petResult petQuerySelectionSet emptyState) =
      Inr (trace emptyState @ evs @ [Merge ''ROOT_QUERY'' fieldMap'])"
  proof (intro exI)
    show "map_sum id trace
        (writeSelectionSetToStore exampleFuel exampleWriter exampleContext ''ROOT_QUERY''
           petResult petQuerySelectionSet emptyState) =
      Inr (trace emptyState @ evs @ [Merge ''ROOT_QUERY'' fieldMap'])"
      by (simp only: W X map_sum.simps id_apply)
  qed
  from 1 N 3 show ?thesis by blast
qed

text \<open>
  Claim C10 as it is written fails when the pair of the child is already in the
  \<^verbatim>\<open>written\<close> table because its own write is still under way further up: the call
  returns at once, the parent is committed, and the child is committed after it. Below,
  the inner user 1 is written with the selection set of \<^verbatim>\<open>friend\<close> while user 2 is being
  written with it, so the first commit of user 1 comes before the commit of user 2, the
  entity of the object nested in it.
\<close>

theorem parent_committed_before_child_counterexample:
  "identify (policies exampleWriter) (user ''2'' []) friendSelectionSet
     (createFragmentMap friendsQuery) = Some ''User:2'' \<and>
   map_sum id trace
     (writeQueryToStore (exampleFuel + exampleFuel + exampleFuel + exampleFuel) exampleWriter
        friendsQuery (Some friendsResult) None None None) =
   Inr [Retain ''ROOT_QUERY'',
        Merge ''User:1''
          [(''__typename'', JStr ''User''), (''id'', JStr ''1''), (''friend'', Reference ''User:2'')],
        Merge ''User:2''
          [(''__typename'', JStr ''User''), (''id'', JStr ''2''), (''friend'', Reference ''User:1'')],
        Merge ''User:1''
          [(''__typename'', JStr ''User''), (''id'', JStr ''1''), (''friend'', Reference ''User:2'')],
        Merge ''ROOT_QUERY'' [(''__typename'', JStr ''Query''), (''user'', Reference ''User:1'')]]"
  by (simp add: friendsQuery_def friendsResult_def user_def friendSelectionSet_def
      userFragmentSelectionSet_def writeQueryToStore_def getOperationDefinition_def
      getDefaultValues_def createFragmentMap_def spreadVariables_def store_retain_def Let_def
      example_defs model_defs)

subsection \<open>The entry point\<close>






subsection \<open>The walk over the merge overrides\<close>
































subsection \<open>The type name in the processed fields\<close>













subsection \<open>Leaves\<close>

lemma cloneDeepAt_spec:
  "\<forall>v' fresh'. cloneDeepAt fresh v = (v', fresh') \<longrightarrow>
     erase v' = erase v \<and> fresh \<le> fresh' \<and> (\<forall>a \<in> addrs v'. fresh \<le> a \<and> a < fresh')"
  "\<forall>xs' fresh'. cloneItems fresh xs = (xs', fresh') \<longrightarrow>
     eraseItems xs' = eraseItems xs \<and> fresh \<le> fresh' \<and>
     (\<forall>a \<in> addrsItems xs'. fresh \<le> a \<and> a < fresh')"
  "\<forall>kvs' fresh'. cloneFields fresh kvs = (kvs', fresh') \<longrightarrow>
     eraseFields kvs' = eraseFields kvs \<and> fresh \<le> fresh' \<and>
     (\<forall>a \<in> addrsFields kvs'. fresh \<le> a \<and> a < fresh')"
proof (induct fresh v and fresh xs and fresh kvs rule: cloneDeepAt_cloneItems_cloneFields.induct)
  case (5 fresh a xs)
  then show ?case by (fastforce split: prod.splits)
next
  case (6 fresh a kvs)
  then show ?case by (fastforce split: prod.splits)
next
  case (8 fresh x xs)
  show ?case
  proof (intro allI impI)
    fix xs' fresh'
    assume A: "cloneItems fresh (x # xs) = (xs', fresh')"
    then obtain x' n1 ys where
      1: "cloneDeepAt fresh x = (x', n1)" and 2: "cloneItems n1 xs = (ys, fresh')" and
      3: "xs' = x' # ys"
      by (auto split: prod.splits)
    from "8.hyps"(1) 1 have I1: "erase x' = erase x" "fresh \<le> n1"
      "\<forall>a \<in> addrs x'. fresh \<le> a \<and> a < n1" by blast+
    from "8.hyps"(2)[OF 1[symmetric]] 2 have I2: "eraseItems ys = eraseItems xs" "n1 \<le> fresh'"
      "\<forall>a \<in> addrsItems ys. n1 \<le> a \<and> a < fresh'" by blast+
    from I1 I2 3 show "eraseItems xs' = eraseItems (x # xs) \<and> fresh \<le> fresh' \<and>
       (\<forall>a \<in> addrsItems xs'. fresh \<le> a \<and> a < fresh')"
      by fastforce
  qed
next
  case (10 fresh kv kvs)
  show ?case
  proof (intro allI impI)
    fix kvs' fresh'
    assume A: "cloneFields fresh (kv # kvs) = (kvs', fresh')"
    then obtain v' n1 ys where
      1: "cloneDeepAt fresh (snd kv) = (v', n1)" and 2: "cloneFields n1 kvs = (ys, fresh')" and
      3: "kvs' = (fst kv, v') # ys"
      by (auto split: prod.splits)
    from "10.hyps"(1) 1 have I1: "erase v' = erase (snd kv)" "fresh \<le> n1"
      "\<forall>a \<in> addrs v'. fresh \<le> a \<and> a < n1" by blast+
    from "10.hyps"(2)[OF 1[symmetric]] 2 have I2: "eraseFields ys = eraseFields kvs" "n1 \<le> fresh'"
      "\<forall>a \<in> addrsFields ys. n1 \<le> a \<and> a < fresh'" by blast+
    from I1 I2 3 show "eraseFields kvs' = eraseFields (kv # kvs) \<and> fresh \<le> fresh' \<and>
       (\<forall>a \<in> addrsFields kvs'. fresh \<le> a \<and> a < fresh')"
      by fastforce
  qed
qed simp_all

lemma writeAt_elsewhere:
  "a \<notin> addrs v \<longrightarrow> writeAt a new v = v"
  "a \<notin> addrsItems xs \<longrightarrow> writeAtItems a new xs = xs"
  "a \<notin> addrsFields kvs \<longrightarrow> writeAtFields a new kvs = kvs"
  by (induct a new v and a new xs and a new kvs rule: writeAt_writeAtItems_writeAtFields.induct)
    auto

text \<open>
  Claim C7. When the field has no selection set or the value is null,
  \<^verbatim>\<open>processFieldValue\<close> returns the value, equal in structure to the input, with no
  overrides and no effect on the state. On values with identity, what line 297 stores is
  that same structure; outside production, when the copy is allocated at addresses that
  the input does not use, the stored value has no array or object in common with the
  input, so a later mutation of any array or object of the input leaves the stored value
  as it is.
\<close>

theorem leaf_is_stored_as_a_copy:
  "(f_selectionSet field = None \<or> leaf = JNull \<longrightarrow>
      processFieldValue (Suc n) w ctx leaf field st = Inr (leaf, None, st)) \<and>
   erase (fst (leafValueAt (production w) fresh input)) = leafValue w (erase input) \<and>
   (\<not> production w \<and> (\<forall>a \<in> addrs input. a < fresh) \<longrightarrow>
      addrs (fst (leafValueAt (production w) fresh input)) \<inter> addrs input = {} \<and>
      (\<forall>a \<in> addrs input. \<forall>new.
         writeAt a new (fst (leafValueAt (production w) fresh input)) =
           fst (leafValueAt (production w) fresh input)))"
proof -
  obtain v' fresh' where C: "cloneDeepAt fresh input = (v', fresh')"
    by (cases "cloneDeepAt fresh input")
  from cloneDeepAt_spec(1) C have E: "erase v' = erase input"
    and F: "\<forall>a \<in> addrs v'. fresh \<le> a \<and> a < fresh'"
    by blast+
  have 1: "processFieldValue (Suc n) w ctx leaf field st = Inr (leaf, None, st)"
    if "f_selectionSet field = None \<or> leaf = JNull"
    using that by (auto simp: leafValue_def cloneDeep_def split: option.splits)
  have 2: "erase (fst (leafValueAt (production w) fresh input)) = leafValue w (erase input)"
    using C E by (simp add: leafValueAt_def leafValue_def cloneDeep_def)
  have 3: "addrs (fst (leafValueAt (production w) fresh input)) \<inter> addrs input = {} \<and>
      (\<forall>a \<in> addrs input. \<forall>new.
         writeAt a new (fst (leafValueAt (production w) fresh input)) =
           fst (leafValueAt (production w) fresh input))"
    if P: "\<not> production w" and B: "\<forall>a \<in> addrs input. a < fresh"
  proof -
    from P C have L: "fst (leafValueAt (production w) fresh input) = v'"
      by (simp add: leafValueAt_def)
    from F B have D: "addrs v' \<inter> addrs input = {}" by fastforce
    then have "\<forall>a \<in> addrs input. \<forall>new. writeAt a new v' = v'"
      using writeAt_elsewhere(1) by blast
    with D L show ?thesis by simp
  qed
  from 1 2 3 show ?thesis by blast
qed

theorem leaf_is_stored_as_a_copy_witness:
  "processFieldValue (Suc 0) exampleWriter exampleContext (erase exampleInput)
     (plainField ''meta'' None) emptyState = Inr (erase exampleInput, None, emptyState) \<and>
   \<not> production exampleWriter \<and>
   addrs exampleInput = {0, 1} \<and>
   fst (leafValueAt (production exampleWriter) 2 exampleInput) =
     IObj 2 [(''tags'', IArr 3 [IStr ''a''])] \<and>
   writeAt 1 (IArr 1 [IStr ''b'']) exampleInput = IObj 0 [(''tags'', IArr 1 [IStr ''b''])] \<and>
   writeAt 1 (IArr 1 [IStr ''b'']) (fst (leafValueAt (production exampleWriter) 2 exampleInput)) =
     fst (leafValueAt (production exampleWriter) 2 exampleInput) \<and>
   writeAt 1 (IArr 1 [IStr ''b'']) (fst (leafValueAt True 2 exampleInput)) =
     IObj 0 [(''tags'', IArr 1 [IStr ''b''])]"
proof -
  have P: "\<not> production exampleWriter" by (simp add: exampleWriter_def)
  have A: "addrs exampleInput = {0, 1}" by (auto simp: exampleInput_def)
  have B: "\<forall>a \<in> addrs exampleInput. a < 2" unfolding A by simp
  have F: "f_selectionSet (plainField ''meta'' None) = None" by (simp add: plainField_def)
  note T = leaf_is_stored_as_a_copy[where w = exampleWriter and field = "plainField ''meta'' None"
      and leaf = "erase exampleInput" and n = 0 and ctx = exampleContext and st = emptyState
      and input = exampleInput and fresh = 2]
  from T F have 1: "processFieldValue (Suc 0) exampleWriter exampleContext (erase exampleInput)
     (plainField ''meta'' None) emptyState = Inr (erase exampleInput, None, emptyState)"
    by blast
  have "(1::nat) \<in> addrs exampleInput" unfolding A by simp
  with T P B have 2: "writeAt 1 (IArr 1 [IStr ''b''])
      (fst (leafValueAt (production exampleWriter) 2 exampleInput)) =
     fst (leafValueAt (production exampleWriter) 2 exampleInput)"
    by blast
  have 3: "fst (leafValueAt (production exampleWriter) 2 exampleInput) =
     IObj 2 [(''tags'', IArr 3 [IStr ''a''])]"
    by (simp add: leafValueAt_def exampleWriter_def exampleInput_def eval_nat_numeral)
  have 4: "writeAt 1 (IArr 1 [IStr ''b'']) exampleInput = IObj 0 [(''tags'', IArr 1 [IStr ''b''])]"
    by (simp add: exampleInput_def)
  have 5: "writeAt 1 (IArr 1 [IStr ''b'']) (fst (leafValueAt True 2 exampleInput)) =
     IObj 0 [(''tags'', IArr 1 [IStr ''b''])]"
    by (simp add: leafValueAt_def exampleInput_def)
  from 1 P A 2 3 4 5 show ?thesis by blast
qed


end
